theory Spec2Isabelle
  imports Main "HOL-Library.Word" "HOL-Library.List_Lexorder"
    "HOL-Library.Product_Lexorder"
begin

section \<open>Python values used by flatten\_repo.py\<close>

text \<open>
  A Python \<open>str\<close> is a sequence of Unicode code points, so it is modelled as a list of
  naturals; \<open>py\<close> turns an ASCII literal into such a sequence. File contents are lists of
  bytes. The order on \<open>str\<close> is the lexicographic order on code points, as in Python.
\<close>

type_synonym codepoint = nat
type_synonym str = "codepoint list"
type_synonym byte = "8 word"

definition py :: "string \<Rightarrow> str" where
  "py cs = map of_char cs"

text \<open>
  Exceptions are values. Only the class distinctions the program makes are kept:
  \<open>decide_file\<close> catches \<open>FileNotFoundError\<close> alone, everything else catches
  \<open>Exception\<close>. \<open>message\<close> is \<open>str(e)\<close>.
\<close>

datatype exn_kind = FileNotFoundError | PermissionError | OtherException

datatype exn = Exn (kind: exn_kind) (message: str)

text \<open>
  \<open>str.isalnum\<close> and \<open>str.lower\<close> consult the Unicode database of the Python
  runtime, which is not part of the repository. On ASCII input they are fixed below;
  beyond ASCII they are parameters.
\<close>

record runtime =
  uni_isalnum :: "codepoint \<Rightarrow> bool"
  uni_lower :: "str \<Rightarrow> str"

definition ascii_lower :: "codepoint \<Rightarrow> codepoint" where
  "ascii_lower c = (if 65 \<le> c \<and> c \<le> 90 then c + 32 else c)"

definition lower :: "runtime \<Rightarrow> str \<Rightarrow> str" where
  "lower U s = (if list_all (\<lambda>c. c < 128) s then map ascii_lower s else uni_lower U s)"

definition isalnum :: "runtime \<Rightarrow> codepoint \<Rightarrow> bool" where
  "isalnum U c =
     (if c < 128 then (48 \<le> c \<and> c \<le> 57) \<or> (65 \<le> c \<and> c \<le> 90) \<or> (97 \<le> c \<and> c \<le> 122)
      else uni_isalnum U c)"

text \<open>\<open>s.startswith(p)\<close> and \<open>sub in s\<close>.\<close>

fun startswith :: "str \<Rightarrow> str \<Rightarrow> bool" where
  "startswith s [] = True"
| "startswith [] (c # p) = False"
| "startswith (d # s) (c # p) = (d = c \<and> startswith s p)"

fun contains :: "str \<Rightarrow> str \<Rightarrow> bool" where
  "contains [] sub = (sub = [])"
| "contains (c # s) sub = (startswith (c # s) sub \<or> contains s sub)"

text \<open>\<open>sep.join(xs)\<close>.\<close>

fun join :: "str \<Rightarrow> str list \<Rightarrow> str" where
  "join sep [] = []"
| "join sep [x] = x"
| "join sep (x # y # ys) = x @ sep @ join sep (y # ys)"

text \<open>\<open>s.split("/")\<close>: the components of a slash-separated path.\<close>

fun split_slash :: "str \<Rightarrow> str list" where
  "split_slash [] = [[]]"
| "split_slash (c # s) =
     (if c = 47 then [] # split_slash s
      else (c # hd (split_slash s)) # tl (split_slash s))"

text \<open>
  \<open>pathlib.PurePath(s).suffix\<close> for a slash-separated relative path: the final component
  from its last dot on, unless that dot is the first or the last character of the
  component. \<open>rfind\<close> is \<open>str.rfind\<close> for one character.
\<close>

fun rfind :: "codepoint \<Rightarrow> str \<Rightarrow> nat option" where
  "rfind c [] = None"
| "rfind c (x # xs) =
     (case rfind c xs of
        Some i \<Rightarrow> Some (i + 1)
      | None \<Rightarrow> if x = c then Some 0 else None)"

definition pure_suffix :: "str \<Rightarrow> str" where
  "pure_suffix s =
     (let name = last (split_slash s) in
      case rfind 46 name of
        None \<Rightarrow> []
      | Some i \<Rightarrow> if 0 < i \<and> i < length name - 1 then drop i name else [])"

text \<open>\<open>str(n)\<close> for a natural number \<open>n\<close>.\<close>

fun decimal :: "nat \<Rightarrow> str" where
  "decimal n = (if n < 10 then [48 + n] else decimal (n div 10) @ [48 + n mod 10])"

declare decimal.simps [simp del]

text \<open>
  \<open>html.escape(s)\<close> with \<open>quote=True\<close>. The library replaces \<open>&\<close> first and then
  \<open><\<close>, \<open>>\<close>, the double and the single quote, which is this map on characters.
\<close>

definition escape_char :: "codepoint \<Rightarrow> str" where
  "escape_char c =
     (if c = 38 then py ''&amp;''
      else if c = 60 then py ''&lt;''
      else if c = 62 then py ''&gt;''
      else if c = 34 then py ''&quot;''
      else if c = 39 then py ''&#x27;''
      else [c])"

definition html_escape :: "str \<Rightarrow> str" where
  "html_escape s = concat (map escape_char s)"

text \<open>
  \<open>chunk.decode("utf-8")\<close> does not raise: the bytes are well-formed UTF-8 (no overlong
  forms, no surrogates, nothing above U+10FFFF, no truncated sequence at the end).
\<close>

definition is_cont :: "byte \<Rightarrow> bool" where
  "is_cont b = (0x80 \<le> b \<and> b \<le> 0xBF)"

fun utf8_decodes :: "byte list \<Rightarrow> bool" where
  "utf8_decodes [] = True"
| "utf8_decodes (b # bs) =
     (if b < 0x80 then utf8_decodes bs
      else if 0xC2 \<le> b \<and> b \<le> 0xDF then
        (case bs of
           c1 # r \<Rightarrow> is_cont c1 \<and> utf8_decodes r
         | _ \<Rightarrow> False)
      else if 0xE0 \<le> b \<and> b \<le> 0xEF then
        (case bs of
           c1 # c2 # r \<Rightarrow>
             (if b = 0xE0 then 0xA0 \<le> c1 \<and> c1 \<le> 0xBF
              else if b = 0xED then 0x80 \<le> c1 \<and> c1 \<le> 0x9F
              else is_cont c1) \<and> is_cont c2 \<and> utf8_decodes r
         | _ \<Rightarrow> False)
      else if 0xF0 \<le> b \<and> b \<le> 0xF4 then
        (case bs of
           c1 # c2 # c3 # r \<Rightarrow>
             (if b = 0xF0 then 0x90 \<le> c1 \<and> c1 \<le> 0xBF
              else if b = 0xF4 then 0x80 \<le> c1 \<and> c1 \<le> 0x8F
              else is_cont c1) \<and> is_cont c2 \<and> is_cont c3 \<and> utf8_decodes r
         | _ \<Rightarrow> False)
      else False)"

text \<open>
  \<open>bytes.decode("utf-8", errors="replace")\<close>, as the text layer of the runtime applies it
  in \<open>path.read_text(encoding="utf-8", errors="replace")\<close>. A well-formed sequence gives
  its code point. An ill-formed one gives U+FFFD (65533) and decoding resumes where the
  runtime's decoder reports the end of the error: after the first byte for an invalid
  start byte or an invalid second byte, after the bytes that were still acceptable for a
  later invalid byte, and at the end of the data for a sequence cut off there.
\<close>

definition second_ok :: "byte \<Rightarrow> byte \<Rightarrow> bool" where
  "second_ok b c =
     (if b = 0xE0 then 0xA0 \<le> c \<and> c \<le> 0xBF
      else if b = 0xED then 0x80 \<le> c \<and> c \<le> 0x9F
      else if b = 0xF0 then 0x90 \<le> c \<and> c \<le> 0xBF
      else if b = 0xF4 then 0x80 \<le> c \<and> c \<le> 0x8F
      else is_cont c)"

fun decode_utf8_replace :: "byte list \<Rightarrow> str" where
  "decode_utf8_replace [] = []"
| "decode_utf8_replace (b # bs) =
     (if b < 0x80 then unat b # decode_utf8_replace bs
      else if 0xC2 \<le> b \<and> b \<le> 0xDF then
        (case bs of
           [] \<Rightarrow> [65533]
         | c1 # r \<Rightarrow>
             if is_cont c1
             then ((unat b - 192) * 64 + (unat c1 - 128)) # decode_utf8_replace r
             else 65533 # decode_utf8_replace bs)
      else if 0xE0 \<le> b \<and> b \<le> 0xEF then
        (case bs of
           [] \<Rightarrow> [65533]
         | c1 # r \<Rightarrow>
             if \<not> second_ok b c1 then 65533 # decode_utf8_replace bs
             else
               (case r of
                  [] \<Rightarrow> [65533]
                | c2 # r2 \<Rightarrow>
                    if is_cont c2
                    then ((unat b - 224) * 4096 + (unat c1 - 128) * 64 + (unat c2 - 128))
                         # decode_utf8_replace r2
                    else 65533 # decode_utf8_replace r))
      else if 0xF0 \<le> b \<and> b \<le> 0xF4 then
        (case bs of
           [] \<Rightarrow> [65533]
         | c1 # r \<Rightarrow>
             if \<not> second_ok b c1 then 65533 # decode_utf8_replace bs
             else
               (case r of
                  [] \<Rightarrow> [65533]
                | c2 # r2 \<Rightarrow>
                    if \<not> is_cont c2 then 65533 # decode_utf8_replace r
                    else
                      (case r2 of
                         [] \<Rightarrow> [65533]
                       | c3 # r3 \<Rightarrow>
                           if is_cont c3
                           then ((unat b - 240) * 262144 + (unat c1 - 128) * 4096
                                 + (unat c2 - 128) * 64 + (unat c3 - 128))
                                # decode_utf8_replace r3
                           else 65533 # decode_utf8_replace r2)))
      else 65533 # decode_utf8_replace bs)"

text \<open>
  The newline translation of a file opened for reading in text mode with the default
  \<open>newline=None\<close>: \<open>\r\n\<close> and a lone \<open>\r\<close> both become \<open>\n\<close>.
\<close>

fun universal_newlines :: "str \<Rightarrow> str" where
  "universal_newlines [] = []"
| "universal_newlines [c] = [if c = 13 then 10 else c]"
| "universal_newlines (c # d # s) =
     (if c = 13 \<and> d = 10 then 10 # universal_newlines s
      else if c = 13 then 10 # universal_newlines (d # s)
      else c # universal_newlines (d # s))"

section \<open>The data model\<close>

definition MAX_DEFAULT_BYTES :: int where
  "MAX_DEFAULT_BYTES = 50 * 1024"

definition BINARY_EXTENSIONS :: "str list" where
  "BINARY_EXTENSIONS = map py
     [''.png'', ''.jpg'', ''.jpeg'', ''.gif'', ''.webp'', ''.bmp'', ''.svg'', ''.ico'',
      ''.pdf'', ''.zip'', ''.tar'', ''.gz'', ''.bz2'', ''.xz'', ''.7z'', ''.rar'',
      ''.mp3'', ''.mp4'', ''.mov'', ''.avi'', ''.mkv'', ''.wav'', ''.ogg'', ''.flac'',
      ''.ttf'', ''.otf'', ''.eot'', ''.woff'', ''.woff2'',
      ''.so'', ''.dll'', ''.dylib'', ''.class'', ''.jar'', ''.exe'', ''.bin'']"

text \<open>
  A \<open>pathlib.Path\<close> under the repository root, together with what the operating system
  answers for it: the program only ever asks these questions of a path.
  \<^item> \<open>rel_to_root\<close> is \<open>str(path.relative_to(repo_root)).replace(os.sep, "/")\<close>;
  \<^item> \<open>stat_st_size\<close> is \<open>path.stat().st_size\<close>, or the exception raised;
  \<^item> \<open>read_rb\<close> is the content read after \<open>path.open("rb")\<close>, or the exception raised;
  \<^item> \<open>text_read\<close> is the content that \<open>path.read_text\<close> reads when the export
    is generated, before decoding, or the exception raised then.
\<close>

record Path =
  rel_to_root :: str
  is_symlink :: bool
  is_file :: bool
  stat_st_size :: "exn + nat"
  read_rb :: "exn + byte list"
  text_read :: "exn + byte list"

text \<open>
  \<open>path.suffix\<close>: the final component of a path under the root is the final component
  of its relative path.
\<close>

definition suffix :: "Path \<Rightarrow> str" where
  "suffix p = pure_suffix (rel_to_root p)"

text \<open>
  \<open>read_text\<close>: \<open>path.read_text(encoding="utf-8", errors="replace")\<close>, which opens the
  file in text mode.
\<close>

definition read_text :: "Path \<Rightarrow> exn + str" where
  "read_text p =
     (case text_read p of
        Inl e \<Rightarrow> Inl e
      | Inr content \<Rightarrow> Inr (universal_newlines (decode_utf8_replace content)))"

record RenderDecision =
  "include" :: bool
  reason :: str

record FileInfo =
  path :: Path
  rel :: str
  size_b :: nat
  decision :: RenderDecision

section \<open>The file classifier\<close>

definition looks_binary :: "runtime \<Rightarrow> Path \<Rightarrow> bool" where
  "looks_binary U p =
     (let ext = lower U (suffix p) in
      if ext \<in> set BINARY_EXTENSIONS then True
      else
        (case read_rb p of
           Inl e \<Rightarrow> True
         | Inr content \<Rightarrow>
             (let chunk = take 8192 content in
              if 0 \<in> set chunk then True
              else if \<not> utf8_decodes chunk then True
              else False)))"

text \<open>
  \<open>decide_file\<close>. The \<open>stat\<close> is guarded by \<open>except FileNotFoundError\<close> only: any
  other exception leaves the function, which is the \<open>Inl\<close> result.
\<close>

definition decide_file :: "runtime \<Rightarrow> Path \<Rightarrow> int \<Rightarrow> exn + FileInfo" where
  "decide_file U p max_bytes =
     (let r = rel_to_root p in
      case (case stat_st_size p of
              Inr n \<Rightarrow> Inr n
            | Inl e \<Rightarrow> if kind e = FileNotFoundError then Inr 0 else Inl e) of
        Inl e \<Rightarrow> Inl e
      | Inr sz \<Rightarrow>
          if contains (py ''/'' @ r @ py ''/'') (py ''/.git/'') \<or> startswith r (py ''.git/'')
          then Inr \<lparr>path = p, rel = r, size_b = sz,
                    decision = \<lparr>include = False, reason = py ''ignored''\<rparr>\<rparr>
          else if int sz > max_bytes
          then Inr \<lparr>path = p, rel = r, size_b = sz,
                    decision = \<lparr>include = False, reason = py ''too_large''\<rparr>\<rparr>
          else if looks_binary U p
          then Inr \<lparr>path = p, rel = r, size_b = sz,
                    decision = \<lparr>include = False, reason = py ''binary''\<rparr>\<rparr>
          else Inr \<lparr>path = p, rel = r, size_b = sz,
                    decision = \<lparr>include = True, reason = py ''ok''\<rparr>\<rparr>)"

text \<open>
  \<open>collect_files\<close>. The list argument is \<open>sorted(repo_root.rglob("*"))\<close>; an exception
  in \<open>decide_file\<close> ends the loop and leaves the function.
\<close>

fun collect_files :: "runtime \<Rightarrow> Path list \<Rightarrow> int \<Rightarrow> exn + FileInfo list" where
  "collect_files U [] max_bytes = Inr []"
| "collect_files U (p # ps) max_bytes =
     (if is_symlink p then collect_files U ps max_bytes
      else if is_file p then
        (case decide_file U p max_bytes of
           Inl e \<Rightarrow> Inl e
         | Inr info \<Rightarrow>
             (case collect_files U ps max_bytes of
                Inl e \<Rightarrow> Inl e
              | Inr infos \<Rightarrow> Inr (info # infos)))
      else collect_files U ps max_bytes)"

section \<open>Human-readable sizes\<close>

text \<open>
  \<open>bytes_human\<close>. The loop divides a float by 1024 while it is at least 1024 and a larger
  unit is left; \<open>bytes_human_loop n i\<close> is that loop on the value \<open>n / 1024 ^ i\<close> and
  returns the final index. A size below \<open>2 ^ 53\<close> is an exact float and so is every
  quotient by 1024, and \<open>f"{f:.1f}"\<close> rounds the exact value to one decimal, ties to
  even: the model computes with exact integers.
\<close>

definition units :: "str list" where
  "units = map py [''B'', ''KiB'', ''MiB'', ''GiB'', ''TiB'']"

function bytes_human_loop :: "nat \<Rightarrow> nat \<Rightarrow> nat" where
  "bytes_human_loop n i =
     (if 1024 ^ (i + 1) \<le> n \<and> i < length units - 1 then bytes_human_loop n (i + 1) else i)"
  by pat_completeness auto
termination
  by (relation "measure (\<lambda>(n, i). 4 - i)") (auto simp: units_def)

declare bytes_human_loop.simps [simp del]

definition round_half_even :: "nat \<Rightarrow> nat \<Rightarrow> nat" where
  "round_half_even a b =
     (let q = a div b; r = a mod b in
      if 2 * r < b then q
      else if b < 2 * r then q + 1
      else if even q then q else q + 1)"

definition bytes_human :: "nat \<Rightarrow> str" where
  "bytes_human n =
     (let i = bytes_human_loop n 0 in
      if i = 0 then decimal n @ py '' '' @ units ! i
      else
        (let t = round_half_even (n * 10) (1024 ^ i) in
         decimal (t div 10) @ py ''.'' @ decimal (t mod 10) @ py '' '' @ units ! i))"

section \<open>The fallback directory tree\<close>

text \<open>
  What \<open>iterdir\<close> and \<open>is_dir\<close> answer below the root: a directory with its entries in
  the order \<open>iterdir\<close> yields them, a directory whose \<open>iterdir\<close> raises, or anything
  else (\<open>is_dir\<close> false).
\<close>

datatype entry = File str | Dir str "entry list" | Unlistable str exn

fun name :: "entry \<Rightarrow> str" where
  "name (File n) = n"
| "name (Dir n es) = n"
| "name (Unlistable n e) = n"

fun is_dir :: "entry \<Rightarrow> bool" where
  "is_dir (File n) = False"
| "is_dir (Dir n es) = True"
| "is_dir (Unlistable n e) = True"

text \<open>The key of \<open>entries.sort\<close>: \<open>(not e.is_dir(), e.name.lower())\<close>.\<close>

definition sort_key_of :: "runtime \<Rightarrow> entry \<Rightarrow> bool \<times> str" where
  "sort_key_of U e = (\<not> is_dir e, lower U (name e))"

definition branch_last :: str where
  "branch_last = [9492, 9472, 9472, 32]"

definition branch_mid :: str where
  "branch_mid = [9500, 9472, 9472, 32]"

definition extension_last :: str where
  "extension_last = [32, 32, 32, 32]"

definition extension_mid :: str where
  "extension_mid = [9474, 32, 32, 32]"

text \<open>
  The first two statements of \<open>walk\<close>: the entries of the directory other than
  \<open>.git\<close>, sorted (stably, as \<open>list.sort\<close> does) by the key.
\<close>

definition sorted_entries :: "runtime \<Rightarrow> entry list \<Rightarrow> entry list" where
  "sorted_entries U es =
     sort_key (sort_key_of U) (filter (\<lambda>e. name e \<noteq> py ''.git'') es)"

lemma size_list_insort_key:
  "size_list f (insort_key k x xs) = Suc (f x + size_list f xs)"
  by (induction xs) auto

lemma size_list_sort_key: "size_list f (sort_key k xs) = size_list f xs"
  by (induction xs) (auto simp: size_list_insort_key)

lemma size_list_filter: "size_list f (filter P xs) \<le> size_list f xs"
  by (induction xs) auto

lemma size_sorted_entries: "size_list size (sorted_entries U es) \<le> size_list size es"
  by (simp add: sorted_entries_def size_list_sort_key size_list_filter)

lemma sorted_entries_Nil [simp]: "sorted_entries U [] = []"
  by (simp add: sorted_entries_def)

text \<open>
  \<open>walk\<close> of \<open>generate_tree_fallback\<close>, returning the lines it appends. \<open>walk_entries\<close>
  is its \<open>for\<close> loop over the sorted entries: the entry at hand is the last one exactly
  when none follows. An exception of \<open>iterdir\<close> leaves every enclosing call.
\<close>

function walk :: "runtime \<Rightarrow> entry \<Rightarrow> str \<Rightarrow> exn + str list"
  and walk_entries :: "runtime \<Rightarrow> entry list \<Rightarrow> str \<Rightarrow> exn + str list" where
  "walk U (Dir n es) prefix = walk_entries U (sorted_entries U es) prefix"
| "walk U (Unlistable n x) prefix = Inl x"
| "walk U (File n) prefix = Inl (Exn OtherException (py ''Not a directory''))"
| "walk_entries U [] prefix = Inr []"
| "walk_entries U (e # rest) prefix =
     (let last = (rest = []);
          branch = (if last then branch_last else branch_mid);
          line = prefix @ branch @ name e
      in case (if is_dir e
               then walk U e (prefix @ (if last then extension_last else extension_mid))
               else Inr []) of
           Inl x \<Rightarrow> Inl x
         | Inr below \<Rightarrow>
             (case walk_entries U rest prefix of
                Inl x \<Rightarrow> Inl x
              | Inr after \<Rightarrow> Inr (line # below @ after)))"
  by pat_completeness auto
termination
proof (relation "measure (\<lambda>a. case a of
    Inl (U, e, p) \<Rightarrow> 2 * size e | Inr (U, es, p) \<Rightarrow> 2 * size_list size es + 1)")
  show "wf (measure (\<lambda>a. case a of
    Inl (U, e, p) \<Rightarrow> 2 * size e | Inr (U, es, p) \<Rightarrow> 2 * size_list size es + 1))"
    by simp
next
  fix U :: runtime and n :: str and es :: "entry list" and prefix :: str
  show "(Inr (U, sorted_entries U es, prefix), Inl (U, Dir n es, prefix))
      \<in> measure (\<lambda>a. case a of
          Inl (U, e, p) \<Rightarrow> 2 * size e | Inr (U, es, p) \<Rightarrow> 2 * size_list size es + 1)"
    using size_sorted_entries [of U es] by simp
qed auto

definition generate_tree_fallback :: "runtime \<Rightarrow> entry \<Rightarrow> exn + str" where
  "generate_tree_fallback U root =
     (case walk U root [] of
        Inl x \<Rightarrow> Inl x
      | Inr lines \<Rightarrow> Inr (join [10] (name root # lines)))"

text \<open>
  \<open>try_tree_command\<close>. \<open>tree_run\<close> is the outcome of running the external \<open>tree\<close>
  utility in the root: its standard output, or the exception \<open>run\<close> raised.
\<close>

definition try_tree_command :: "runtime \<Rightarrow> exn + str \<Rightarrow> entry \<Rightarrow> exn + str" where
  "try_tree_command U tree_run root =
     (case tree_run of
        Inr out \<Rightarrow> Inr out
      | Inl x \<Rightarrow> generate_tree_fallback U root)"

section \<open>Anchors and icons\<close>

fun slugify :: "runtime \<Rightarrow> str \<Rightarrow> str" where
  "slugify U [] = []"
| "slugify U (ch # path_str) =
     (if isalnum U ch \<or> ch \<in> {45, 95} then ch # slugify U path_str
      else 45 # slugify U path_str)"

definition icons :: "(str \<times> str) list" where
  "icons =
     [(py ''.py'', [128013]),
      (py ''.js'', [129000]),
      (py ''.ts'', [128309]),
      (py ''.jsx'', [9883, 65039]),
      (py ''.tsx'', [9883, 65039]),
      (py ''.html'', [127760]),
      (py ''.css'', [127912]),
      (py ''.scss'', [127912]),
      (py ''.sass'', [127912]),
      (py ''.json'', [128203]),
      (py ''.xml'', [128203]),
      (py ''.yaml'', [128203]),
      (py ''.yml'', [128203]),
      (py ''.md'', [128221]),
      (py ''.txt'', [128196]),
      (py ''.pdf'', [128213]),
      (py ''.doc'', [128216]),
      (py ''.docx'', [128216]),
      (py ''.xls'', [128202]),
      (py ''.xlsx'', [128202]),
      (py ''.csv'', [128202]),
      (py ''.sql'', [128452, 65039]),
      (py ''.sh'', [9889]),
      (py ''.bat'', [9889]),
      (py ''.ps1'', [9889]),
      (py ''.php'', [128024]),
      (py ''.rb'', [128142]),
      (py ''.go'', [128057]),
      (py ''.rs'', [129408]),
      (py ''.cpp'', [9881, 65039]),
      (py ''.c'', [9881, 65039]),
      (py ''.h'', [9881, 65039]),
      (py ''.java'', [9749]),
      (py ''.kt'', [128995]),
      (py ''.swift'', [128038]),
      (py ''.dart'', [127919]),
      (py ''.vue'', [128154]),
      (py ''.svelte'', [129505]),
      (py ''.dockerfile'', [128051]),
      (py ''.gitignore'', [128203]),
      (py ''.env'', [128272]),
      (py ''.lock'', [128274]),
      (py ''.log'', [128220])]"

definition get_file_icon :: "runtime \<Rightarrow> str \<Rightarrow> str" where
  "get_file_icon U ext =
     (case map_of icons (lower U ext) of
        Some icon \<Rightarrow> icon
      | None \<Rightarrow> [128196])"

section \<open>The structured export\<close>

text \<open>
  \<open>generate_cxml_text\<close>. \<open>cxml_entries index rendered\<close> is the loop
  \<open>for index, i in enumerate(rendered, index)\<close>; the function returns the lines joined
  by newlines.
\<close>

fun cxml_entries :: "nat \<Rightarrow> FileInfo list \<Rightarrow> str list" where
  \<open>cxml_entries index [] = []\<close>
| \<open>cxml_entries index (i # rendered) =
     [py ''<document index="'' @ decimal index @ py ''">'',
      py ''<source>'' @ rel i @ py ''</source>'',
      py ''<document_content>'',
      (case read_text (path i) of
         Inr text \<Rightarrow> text
       | Inl e \<Rightarrow> py ''Failed to read: '' @ message e),
      py ''</document_content>'',
      py ''</document>'']
     @ cxml_entries (index + 1) rendered\<close>

definition cxml_lines :: "FileInfo list \<Rightarrow> str list" where
  "cxml_lines infos =
     [py ''<documents>'']
     @ cxml_entries 1 (filter (\<lambda>i. include (decision i)) infos)
     @ [py ''</documents>'']"

definition generate_cxml_text :: "FileInfo list \<Rightarrow> str" where
  "generate_cxml_text infos = join [10] (cxml_lines infos)"

section \<open>The document assembler\<close>

text \<open>
  \<open>build_html\<close> returns one large template string. The model keeps the values the
  template interpolates from the classification: the table of contents, the four
  statistics, the tree, the skip lists, the sections and the export text. The static
  style sheet and script, and the title and navbar (functions of \<open>repo_url\<close> and
  \<open>head_commit\<close> alone) are left out. The body of a section comes from the external
  highlighter or markdown renderer, or is the error marker when they raise: it is the
  parameter \<open>body_html\<close>.
\<close>

definition toc_item :: "runtime \<Rightarrow> FileInfo \<Rightarrow> str" where
  \<open>toc_item U i =
     (let anchor = slugify U (rel i);
          ext = lower U (pure_suffix (rel i));
          icon = get_file_icon U ext
      in py ''<li><a href="#file-'' @ anchor @ py ''"><span class="file-icon">'' @ icon
         @ py ''</span>'' @ html_escape (rel i) @ py ''</a> ''
         @ py ''<span class="file-size">('' @ bytes_human (size_b i) @ py '')</span></li>'')\<close>

definition section_html :: "runtime \<Rightarrow> (FileInfo \<Rightarrow> str) \<Rightarrow> FileInfo \<Rightarrow> str" where
  \<open>section_html U body_html i =
     (let anchor = slugify U (rel i)
      in [10] @ py ''<section class="file-section" id="file-'' @ anchor @ py ''">'' @ [10]
         @ py ''  <div class="file-body">'' @ body_html i @ py ''</div>'' @ [10]
         @ py ''</section>'' @ [10])\<close>

definition skip_item :: "FileInfo \<Rightarrow> str" where
  "skip_item i =
     py ''<li><code>'' @ html_escape (rel i) @ py ''</code> ''
     @ py ''<span class='file-size'>('' @ bytes_human (size_b i) @ py '')</span></li>''"

definition render_skip_list :: "str \<Rightarrow> FileInfo list \<Rightarrow> str" where
  "render_skip_list title items =
     (if items = [] then []
      else
        py ''<details class='skip-section'><summary>'' @ html_escape title @ py '' (''
        @ decimal (length items) @ py '')</summary>'' @ py ''<ul class='skip-list'>'' @ [10]
        @ join [10] (map skip_item items) @ [10] @ py ''</ul></details>'')"

record artifact =
  toc_html :: str
  stat_total_files :: str
  stat_rendered :: str
  stat_skipped :: str
  stat_total_size :: str
  tree_html :: str
  skipped_html :: str
  sections_html :: str
  llm_text :: str

definition build_html ::
  "runtime \<Rightarrow> (FileInfo \<Rightarrow> str) \<Rightarrow> exn + str \<Rightarrow> entry \<Rightarrow> FileInfo list \<Rightarrow> exn + artifact" where
  "build_html U body_html tree_run repo_dir infos =
     (let rendered = filter (\<lambda>i. include (decision i)) infos;
          skipped_binary = filter (\<lambda>i. reason (decision i) = py ''binary'') infos;
          skipped_large = filter (\<lambda>i. reason (decision i) = py ''too_large'') infos;
          skipped_ignored = filter (\<lambda>i. reason (decision i) = py ''ignored'') infos;
          total_files = length rendered + length skipped_binary + length skipped_large
                        + length skipped_ignored
      in case try_tree_command U tree_run repo_dir of
           Inl x \<Rightarrow> Inl x
         | Inr tree_text \<Rightarrow>
             (let cxml_text = generate_cxml_text infos;
                  toc = concat (map (toc_item U) rendered);
                  sections = map (section_html U body_html) rendered;
                  skipped =
                    render_skip_list (py ''Skipped binaries'') skipped_binary
                    @ render_skip_list (py ''Skipped large files'') skipped_large
              in Inr \<lparr>toc_html = toc,
                      stat_total_files = decimal total_files,
                      stat_rendered = decimal (length rendered),
                      stat_skipped = decimal (length skipped_binary + length skipped_large),
                      stat_total_size = bytes_human (sum_list (map size_b rendered)),
                      tree_html = html_escape tree_text,
                      skipped_html = skipped,
                      sections_html = concat sections,
                      llm_text = html_escape cxml_text\<rparr>))"

text \<open>
  The two calls every caller makes (\<open>main\<close> in flatten\_repo.py and \<open>process_repo\<close> in
  app.py): \<open>infos = collect_files(repo_dir, max_bytes)\<close>, then
  \<open>build_html(repo_url, repo_dir, head, infos)\<close>. \<open>found\<close> is
  \<open>sorted(repo_dir.rglob("*"))\<close>.
\<close>

definition scan_and_build ::
  "runtime \<Rightarrow> (FileInfo \<Rightarrow> str) \<Rightarrow> exn + str \<Rightarrow> entry \<Rightarrow> Path list \<Rightarrow> int \<Rightarrow> exn + artifact" where
  "scan_and_build U body_html tree_run repo_dir found max_bytes =
     (case collect_files U found max_bytes of
        Inl x \<Rightarrow> Inl x
      | Inr infos \<Rightarrow> build_html U body_html tree_run repo_dir infos)"

section \<open>The wording of the specification\<close>

text \<open>
  The specification words the first test of \<open>decide_file\<close> as "the path lies under
  the version-control metadata directory": a component of the relative path other than
  the last one, the file's own name, is \<open>.git\<close>. This definition follows those words,
  for comparison with the test of the source.
\<close>

definition lies_under_git_dir :: "str \<Rightarrow> bool" where
  "lies_under_git_dir r = (py ''.git'' \<in> set (butlast (split_slash r)))"

section \<open>Sample inputs\<close>

definition ascii_runtime :: runtime where
  "ascii_runtime = \<lparr>uni_isalnum = (\<lambda>c. False), uni_lower = (\<lambda>s. s)\<rparr>"

definition regular_file :: "string \<Rightarrow> byte list \<Rightarrow> Path" where
  "regular_file r content =
     \<lparr>rel_to_root = py r, is_symlink = False, is_file = True,
      stat_st_size = Inr (length content), read_rb = Inr content,
      text_read = Inr content\<rparr>"

definition directory :: "string \<Rightarrow> Path" where
  "directory r =
     \<lparr>rel_to_root = py r, is_symlink = False, is_file = False,
      stat_st_size = Inr 4096, read_rb = Inl (Exn OtherException (py ''Is a directory'')),
      text_read = Inl (Exn OtherException (py ''Is a directory''))\<rparr>"

definition sample_paths :: "Path list" where
  "sample_paths =
     [directory ''.git'',
      regular_file ''.git/config'' [120, 10],
      regular_file ''README.md'' [35, 32, 104, 105],
      regular_file ''big.txt'' [104, 101, 108, 108, 111],
      (regular_file ''link.txt'' [104, 105])\<lparr>is_symlink := True\<rparr>,
      regular_file ''logo.PNG'' [137, 80, 78, 71]]"

definition sample_infos :: "FileInfo list" where
  "sample_infos =
     [\<lparr>path = regular_file ''.git/config'' [120, 10], rel = py ''.git/config'', size_b = 2,
       decision = \<lparr>include = False, reason = py ''ignored''\<rparr>\<rparr>,
      \<lparr>path = regular_file ''README.md'' [35, 32, 104, 105], rel = py ''README.md'',
       size_b = 4, decision = \<lparr>include = True, reason = py ''ok''\<rparr>\<rparr>,
      \<lparr>path = regular_file ''big.txt'' [104, 101, 108, 108, 111], rel = py ''big.txt'',
       size_b = 5, decision = \<lparr>include = False, reason = py ''too_large''\<rparr>\<rparr>,
      \<lparr>path = regular_file ''logo.PNG'' [137, 80, 78, 71], rel = py ''logo.PNG'',
       size_b = 4, decision = \<lparr>include = False, reason = py ''binary''\<rparr>\<rparr>]"

definition vanished_file :: "string \<Rightarrow> Path" where
  "vanished_file r =
     \<lparr>rel_to_root = py r, is_symlink = False, is_file = True,
      stat_st_size = Inl (Exn FileNotFoundError (py ''No such file or directory'')),
      read_rb = Inl (Exn FileNotFoundError (py ''No such file or directory'')),
      text_read = Inl (Exn FileNotFoundError (py ''No such file or directory''))\<rparr>"

definition unreadable_file :: "string \<Rightarrow> nat \<Rightarrow> Path" where
  "unreadable_file r n =
     \<lparr>rel_to_root = py r, is_symlink = False, is_file = True,
      stat_st_size = Inr n,
      read_rb = Inl (Exn PermissionError (py ''Permission denied'')),
      text_read = Inl (Exn PermissionError (py ''Permission denied''))\<rparr>"

definition unstatable_file :: "string \<Rightarrow> Path" where
  "unstatable_file r =
     \<lparr>rel_to_root = py r, is_symlink = False, is_file = True,
      stat_st_size = Inl (Exn PermissionError (py ''Permission denied'')),
      read_rb = Inl (Exn PermissionError (py ''Permission denied'')),
      text_read = Inl (Exn PermissionError (py ''Permission denied''))\<rparr>"

definition recover_paths :: "Path list" where
  "recover_paths =
     [regular_file ''a.txt'' [104, 105], vanished_file ''gone.txt'',
      unreadable_file ''secret.txt'' 5, directory ''src'', regular_file ''src/c.txt'' [104, 105]]"

definition export_infos :: "FileInfo list" where
  "export_infos =
     [\<lparr>path = regular_file ''README.md'' [35, 32, 60, 104, 105, 62], rel = py ''README.md'',
       size_b = 6, decision = \<lparr>include = True, reason = py ''ok''\<rparr>\<rparr>,
      \<lparr>path = regular_file ''logo.PNG'' [137, 80, 78, 71], rel = py ''logo.PNG'',
       size_b = 4, decision = \<lparr>include = False, reason = py ''binary''\<rparr>\<rparr>,
      \<lparr>path = (regular_file ''notes.txt'' [104, 105])
                \<lparr>text_read := Inl (Exn PermissionError (py ''Permission denied''))\<rparr>,
       rel = py ''notes.txt'', size_b = 2,
       decision = \<lparr>include = True, reason = py ''ok''\<rparr>\<rparr>]"

definition ignored_only :: "FileInfo list" where
  "ignored_only =
     [\<lparr>path = regular_file ''.git/config'' [120, 10], rel = py ''.git/config'', size_b = 2,
       decision = \<lparr>include = False, reason = py ''ignored''\<rparr>\<rparr>]"

definition sample_tree :: entry where
  "sample_tree =
     Dir (py ''repo'')
       [File (py ''b.txt''), File (py ''A.txt''), Dir (py ''.git'') [File (py ''HEAD'')],
        Dir (py ''src'') [File (py ''main.py'')]]"

section \<open>Facts about the string helpers\<close>

lemma split_slash_nonempty: "split_slash r \<noteq> []"
  by (cases r) auto

lemma startswith_Nil [simp]: "startswith [] p \<longleftrightarrow> p = []"
  by (cases p) auto

lemma startswith_append: "startswith s p \<Longrightarrow> startswith (s @ t) p"
  by (induction s p rule: startswith.induct) auto

lemma startswith_component:
  "47 \<notin> set w \<Longrightarrow> startswith (r @ [47]) (w @ [47]) \<longleftrightarrow> hd (split_slash r) = w"
proof (induction r arbitrary: w)
  case Nil
  then show ?case by (cases w) auto
next
  case (Cons c s)
  show ?case
  proof (cases w)
    case Nil
    then show ?thesis by auto
  next
    case (Cons x w')
    with Cons.prems Cons.IH [of w'] show ?thesis by auto
  qed
qed

lemma contains_component:
  "47 \<notin> set w \<Longrightarrow> contains (r @ [47]) (47 # w @ [47]) \<longleftrightarrow> w \<in> set (tl (split_slash r))"
proof (induction r)
  case Nil
  then show ?case by simp
next
  case (Cons c s)
  have ne: "split_slash s = hd (split_slash s) # tl (split_slash s)"
    using split_slash_nonempty [of s] by simp
  show ?case
  proof (cases "c = 47")
    case True
    have "w \<in> set (split_slash s) \<longleftrightarrow> hd (split_slash s) = w \<or> w \<in> set (tl (split_slash s))"
      by (subst ne) auto
    with True Cons show ?thesis
      by (simp add: startswith_component)
  next
    case False
    with Cons show ?thesis by simp
  qed
qed

lemma py_git_dir: "py ''/.git/'' = 47 # py ''.git'' @ [47]" "py ''/'' = [47]"
  "py ''.git/'' = py ''.git'' @ [47]" "47 \<notin> set (py ''.git'')"
  by (simp_all add: py_def)

lemma ignored_test_components:
  "contains (py ''/'' @ r @ py ''/'') (py ''/.git/'') \<or> startswith r (py ''.git/'')
     \<longleftrightarrow> py ''.git'' \<in> set (split_slash r)"
proof -
  let ?w = "py ''.git''"
  have ne: "split_slash r = hd (split_slash r) # tl (split_slash r)"
    using split_slash_nonempty [of r] by simp
  have mem: "?w \<in> set (split_slash r) \<longleftrightarrow> hd (split_slash r) = ?w \<or> ?w \<in> set (tl (split_slash r))"
    by (subst ne) auto
  have a: "contains (py ''/'' @ r @ py ''/'') (py ''/.git/'') \<longleftrightarrow> ?w \<in> set (split_slash r)"
    unfolding py_git_dir(1,2) using py_git_dir(4)
    by (simp add: startswith_component contains_component mem)
  have b: "startswith r (py ''.git/'') \<Longrightarrow> hd (split_slash r) = ?w"
    unfolding py_git_dir(3)
    using startswith_append [of r "?w @ [47]" "[47]"] startswith_component [OF py_git_dir(4), of r]
    by simp
  from a b mem show ?thesis by blast
qed

section \<open>The classifier's decisions\<close>

lemmas eval_defs = decide_file_def regular_file_def looks_binary_def ascii_runtime_def
  lower_def ascii_lower_def BINARY_EXTENSIONS_def py_def is_cont_def Let_def
  suffix_def pure_suffix_def

lemma decide_file_cases:
  assumes "decide_file U p max_bytes = Inr info"
  shows "path info = p \<and> rel info = rel_to_root p
     \<and> size_b info = (case stat_st_size p of Inr n \<Rightarrow> n | Inl e \<Rightarrow> 0)
     \<and> decision info =
         (if py ''.git'' \<in> set (split_slash (rel_to_root p))
          then \<lparr>include = False, reason = py ''ignored''\<rparr>
          else if max_bytes < int (size_b info)
          then \<lparr>include = False, reason = py ''too_large''\<rparr>
          else if looks_binary U p
          then \<lparr>include = False, reason = py ''binary''\<rparr>
          else \<lparr>include = True, reason = py ''ok''\<rparr>)"
  using assms ignored_test_components [of "rel_to_root p"]
  unfolding decide_file_def Let_def
  by (auto split: sum.splits if_splits)

lemma decide_file_returns:
  "(\<exists>i. decide_file U p max_bytes = Inr i) \<longleftrightarrow>
     (case stat_st_size p of Inr n \<Rightarrow> True | Inl e \<Rightarrow> kind e = FileNotFoundError)"
  by (auto simp: decide_file_def Let_def split: sum.splits)

lemma split_slash_member:
  "x \<in> set (split_slash r) \<longleftrightarrow> x \<in> set (butlast (split_slash r)) \<or> last (split_slash r) = x"
proof -
  have "split_slash r = butlast (split_slash r) @ [last (split_slash r)]"
    using split_slash_nonempty [of r] by simp
  then have "set (split_slash r) = set (butlast (split_slash r)) \<union> {last (split_slash r)}"
    by (metis list.set(1) list.simps(15) set_append)
  then show ?thesis by auto
qed

theorem ignored_named_git_counterexample:
  "\<not> lies_under_git_dir (py ''sub/.git'')
   \<and> stat_st_size (regular_file ''sub/.git'' [104, 105]) = Inr 2
   \<and> \<not> looks_binary ascii_runtime (regular_file ''sub/.git'' [104, 105])
   \<and> decide_file ascii_runtime (regular_file ''sub/.git'' [104, 105]) 10
     = Inr \<lparr>path = regular_file ''sub/.git'' [104, 105], rel = py ''sub/.git'', size_b = 2,
            decision = \<lparr>include = False, reason = py ''ignored''\<rparr>\<rparr>"
  by (simp add: eval_defs lies_under_git_dir_def)

text \<open>
  C1, as the code has it. The reason \<open>decide_file\<close> assigns follows a fixed order of
  tests. First, a path one of whose components is \<open>.git\<close> is \<open>ignored\<close>: that is
  the test \<open>"/.git/" in f"/{rel}/"\<close> of the source (\<open>ignored_test_components\<close>), and
  it holds exactly when the file lies under a directory \<open>.git\<close>, at the root or deeper,
  or is itself named \<open>.git\<close>. Otherwise a size strictly above \<open>max_bytes\<close> is
  \<open>too_large\<close>; otherwise the binary heuristic decides between \<open>binary\<close> and
  \<open>ok\<close>. The size is the one \<open>stat\<close> reports (0 when the file has vanished): a
  file of exactly \<open>max_bytes\<close> bytes passes the size test and is included unless it
  looks binary; one of \<open>max_bytes + 1\<close> bytes is \<open>too_large\<close>.
\<close>

theorem decide_file_order:
  assumes "decide_file U p max_bytes = Inr info"
  shows "size_b info = (case stat_st_size p of Inr n \<Rightarrow> n | Inl e \<Rightarrow> 0)
       \<and> reason (decision info) =
           (if py ''.git'' \<in> set (split_slash (rel_to_root p)) then py ''ignored''
            else if max_bytes < int (size_b info) then py ''too_large''
            else if looks_binary U p then py ''binary''
            else py ''ok'')
       \<and> (py ''.git'' \<in> set (split_slash (rel_to_root p)) \<longleftrightarrow>
            lies_under_git_dir (rel_to_root p) \<or> last (split_slash (rel_to_root p)) = py ''.git'')
       \<and> (lies_under_git_dir (rel_to_root p) \<longrightarrow> reason (decision info) = py ''ignored'')
       \<and> (\<forall>n. stat_st_size p = Inr n \<and> py ''.git'' \<notin> set (split_slash (rel_to_root p))
              \<and> int n = max_bytes
            \<longrightarrow> include (decision info) = (\<not> looks_binary U p)
              \<and> reason (decision info) = (if looks_binary U p then py ''binary'' else py ''ok''))
       \<and> (\<forall>n. stat_st_size p = Inr n \<and> py ''.git'' \<notin> set (split_slash (rel_to_root p))
              \<and> int n = max_bytes + 1
            \<longrightarrow> reason (decision info) = py ''too_large'')"
proof -
  note c = decide_file_cases [OF assms]
  have s: "size_b info = (case stat_st_size p of Inr n \<Rightarrow> n | Inl e \<Rightarrow> 0)"
    using c by simp
  have r: "reason (decision info) =
           (if py ''.git'' \<in> set (split_slash (rel_to_root p)) then py ''ignored''
            else if max_bytes < int (size_b info) then py ''too_large''
            else if looks_binary U p then py ''binary''
            else py ''ok'')"
    using c by simp
  have g: "py ''.git'' \<in> set (split_slash (rel_to_root p)) \<longleftrightarrow>
            lies_under_git_dir (rel_to_root p) \<or> last (split_slash (rel_to_root p)) = py ''.git''"
    unfolding lies_under_git_dir_def by (rule split_slash_member)
  have u: "lies_under_git_dir (rel_to_root p) \<longrightarrow> reason (decision info) = py ''ignored''"
    using r g by simp
  have e: "\<forall>n. stat_st_size p = Inr n \<and> py ''.git'' \<notin> set (split_slash (rel_to_root p))
              \<and> int n = max_bytes
            \<longrightarrow> include (decision info) = (\<not> looks_binary U p)
              \<and> reason (decision info) = (if looks_binary U p then py ''binary'' else py ''ok'')"
    using c by auto
  have l: "\<forall>n. stat_st_size p = Inr n \<and> py ''.git'' \<notin> set (split_slash (rel_to_root p))
              \<and> int n = max_bytes + 1
            \<longrightarrow> reason (decision info) = py ''too_large''"
    using c by auto
  show ?thesis
    by (rule conjI [OF s conjI [OF r conjI [OF g conjI [OF u conjI [OF e l]]]]])
qed

theorem decide_file_order_witness:
  "decide_file ascii_runtime (regular_file ''src/a.txt'' [104, 105]) 2
     = Inr \<lparr>path = regular_file ''src/a.txt'' [104, 105], rel = py ''src/a.txt'',
            size_b = 2, decision = \<lparr>include = True, reason = py ''ok''\<rparr>\<rparr>
   \<and> decide_file ascii_runtime (regular_file ''src/a.txt'' [104, 105, 33]) 2
     = Inr \<lparr>path = regular_file ''src/a.txt'' [104, 105, 33], rel = py ''src/a.txt'',
            size_b = 3, decision = \<lparr>include = False, reason = py ''too_large''\<rparr>\<rparr>
   \<and> decide_file ascii_runtime (regular_file ''sub/.git/config'' [104, 105, 33]) 2
     = Inr \<lparr>path = regular_file ''sub/.git/config'' [104, 105, 33],
            rel = py ''sub/.git/config'', size_b = 3,
            decision = \<lparr>include = False, reason = py ''ignored''\<rparr>\<rparr>
   \<and> lies_under_git_dir (py ''sub/.git/config'')"
proof -
  let ?p = "regular_file ''src/a.txt'' [104, 105]"
  let ?q = "regular_file ''src/a.txt'' [104, 105, 33]"
  let ?g = "regular_file ''sub/.git/config'' [104, 105, 33]"
  have k: "decide_file ascii_runtime ?g 2
     = Inr \<lparr>path = ?g, rel = py ''sub/.git/config'',
            size_b = 3, decision = \<lparr>include = False, reason = py ''ignored''\<rparr>\<rparr>"
    by (simp add: eval_defs)
  have i: "decide_file ascii_runtime ?p 2
     = Inr \<lparr>path = ?p, rel = py ''src/a.txt'',
            size_b = 2, decision = \<lparr>include = True, reason = py ''ok''\<rparr>\<rparr>"
    by (simp add: eval_defs)
  have j: "decide_file ascii_runtime ?q 2
     = Inr \<lparr>path = ?q, rel = py ''src/a.txt'',
            size_b = 3, decision = \<lparr>include = False, reason = py ''too_large''\<rparr>\<rparr>"
    by (simp add: eval_defs)
  have u: "lies_under_git_dir (py ''sub/.git/config'')"
    by (simp add: lies_under_git_dir_def py_def)
  from decide_file_order [OF i] decide_file_order [OF j] decide_file_order [OF k] i j k u
  show ?thesis
    by simp
qed

lemma collect_files_Inr:
  "collect_files U ps max_bytes = Inr infos \<Longrightarrow>
     list_all2 (\<lambda>p i. decide_file U p max_bytes = Inr i)
       (filter (\<lambda>p. \<not> is_symlink p \<and> is_file p) ps) infos"
proof (induction ps arbitrary: infos)
  case Nil
  then show ?case by simp
next
  case (Cons p ps)
  then show ?case
    by (auto split: if_splits sum.splits)
qed

lemma reason_counts:
  assumes "\<forall>i \<in> set infos. f i \<in> {a, b, c, d}" and "distinct [a, b, c, d]"
  shows "length (filter (\<lambda>i. f i = a) infos) + length (filter (\<lambda>i. f i = b) infos)
       + length (filter (\<lambda>i. f i = c) infos) + length (filter (\<lambda>i. f i = d) infos)
       = length infos"
  using assms by (induction infos) auto

lemma reasons_distinct:
  "distinct [py ''ok'', py ''binary'', py ''too_large'', py ''ignored'']"
  by (simp add: py_def)

lemma decide_file_decision:
  assumes "decide_file U p max_bytes = Inr i"
  shows "reason (decision i) \<in> {py ''ok'', py ''binary'', py ''too_large'', py ''ignored''}"
    and "include (decision i) \<longleftrightarrow> reason (decision i) = py ''ok''"
  using decide_file_cases [OF assms] reasons_distinct
  by (auto split: if_splits)

lemma collect_files_members:
  "collect_files U ps max_bytes = Inr infos \<Longrightarrow> i \<in> set infos \<Longrightarrow>
     \<exists>p \<in> set ps. \<not> is_symlink p \<and> is_file p \<and> decide_file U p max_bytes = Inr i"
proof (induction ps arbitrary: infos)
  case Nil
  then show ?case by simp
next
  case (Cons p ps)
  then show ?case
    by (fastforce split: if_splits sum.splits)
qed

lemma sample_collect: "collect_files ascii_runtime sample_paths 4 = Inr sample_infos"
  by (simp add: sample_paths_def sample_infos_def directory_def eval_defs)

text \<open>
  C2. Every record the classifier returns carries one of the four reasons \<open>ok\<close>,
  \<open>binary\<close>, \<open>too_large\<close>, \<open>ignored\<close>; it is included exactly when the reason is
  \<open>ok\<close>; and the four per-reason counts add up to the number of records, which is the
  number of discovered regular files that are not symlinks.
\<close>

theorem classifier_invariant:
  assumes "collect_files U ps max_bytes = Inr infos"
  shows "(\<forall>i \<in> set infos.
            reason (decision i) \<in> {py ''ok'', py ''binary'', py ''too_large'', py ''ignored''}
          \<and> (include (decision i) \<longleftrightarrow> reason (decision i) = py ''ok''))
       \<and> length (filter (\<lambda>i. reason (decision i) = py ''ok'') infos)
         + length (filter (\<lambda>i. reason (decision i) = py ''binary'') infos)
         + length (filter (\<lambda>i. reason (decision i) = py ''too_large'') infos)
         + length (filter (\<lambda>i. reason (decision i) = py ''ignored'') infos)
         = length infos
       \<and> length infos = length (filter (\<lambda>p. \<not> is_symlink p \<and> is_file p) ps)"
proof -
  have each: "\<forall>i \<in> set infos.
      reason (decision i) \<in> {py ''ok'', py ''binary'', py ''too_large'', py ''ignored''}
      \<and> (include (decision i) \<longleftrightarrow> reason (decision i) = py ''ok'')"
    using collect_files_members [OF assms] decide_file_decision by blast
  then have "\<forall>i \<in> set infos.
      reason (decision i) \<in> {py ''ok'', py ''binary'', py ''too_large'', py ''ignored''}"
    by blast
  from reason_counts [OF this reasons_distinct]
  have counts: "length (filter (\<lambda>i. reason (decision i) = py ''ok'') infos)
         + length (filter (\<lambda>i. reason (decision i) = py ''binary'') infos)
         + length (filter (\<lambda>i. reason (decision i) = py ''too_large'') infos)
         + length (filter (\<lambda>i. reason (decision i) = py ''ignored'') infos)
         = length infos" .
  have len: "length infos = length (filter (\<lambda>p. \<not> is_symlink p \<and> is_file p) ps)"
    using collect_files_Inr [OF assms] by (simp add: list_all2_lengthD)
  from each counts len show ?thesis by blast
qed

theorem classifier_invariant_witness:
  "list_all (\<lambda>i. reason (decision i) \<in> {py ''ok'', py ''binary'', py ''too_large'', py ''ignored''})
     sample_infos
   \<and> list_all (\<lambda>i. include (decision i) \<longleftrightarrow> reason (decision i) = py ''ok'') sample_infos
   \<and> length (filter (\<lambda>i. reason (decision i) = py ''ok'') sample_infos)
     + length (filter (\<lambda>i. reason (decision i) = py ''binary'') sample_infos)
     + length (filter (\<lambda>i. reason (decision i) = py ''too_large'') sample_infos)
     + length (filter (\<lambda>i. reason (decision i) = py ''ignored'') sample_infos)
     = length sample_infos
   \<and> length sample_infos = 4"
proof -
  have "length (filter (\<lambda>p. \<not> is_symlink p \<and> is_file p) sample_paths) = 4"
    by (simp add: sample_paths_def directory_def regular_file_def)
  with classifier_invariant [OF sample_collect] show ?thesis
    by (simp add: list_all_iff)
qed

text \<open>
  C3. \<open>looks_binary\<close> answers binary exactly when the lowercased extension is in
  \<open>BINARY_EXTENSIONS\<close>, or the first 8192 bytes contain a NUL byte, or those bytes do
  not decode as UTF-8, or the file cannot be read. Hence a readable file with a NUL byte
  among its first 8192 bytes looks binary whatever its extension, and \<open>decide_file\<close>
  gives it the reason \<open>binary\<close> exactly when the two earlier tests (ignored, too large)
  let it through.
\<close>

theorem looks_binary_iff:
  "(looks_binary U p \<longleftrightarrow>
      lower U (suffix p) \<in> set BINARY_EXTENSIONS
      \<or> (\<exists>content. read_rb p = Inr content \<and> 0 \<in> set (take 8192 content))
      \<or> (\<exists>content. read_rb p = Inr content \<and> \<not> utf8_decodes (take 8192 content))
      \<or> (\<exists>e. read_rb p = Inl e))
   \<and> (\<forall>content r. read_rb p = Inr content \<and> 0 \<in> set (take 8192 content)
         \<longrightarrow> looks_binary U (p\<lparr>rel_to_root := r\<rparr>))
   \<and> (\<forall>info. decide_file U p max_bytes = Inr info \<longrightarrow>
         (reason (decision info) = py ''binary'' \<longleftrightarrow>
            py ''.git'' \<notin> set (split_slash (rel_to_root p))
            \<and> int (size_b info) \<le> max_bytes \<and> looks_binary U p))"
proof -
  have a: "looks_binary U p \<longleftrightarrow>
      lower U (suffix p) \<in> set BINARY_EXTENSIONS
      \<or> (\<exists>content. read_rb p = Inr content \<and> 0 \<in> set (take 8192 content))
      \<or> (\<exists>content. read_rb p = Inr content \<and> \<not> utf8_decodes (take 8192 content))
      \<or> (\<exists>e. read_rb p = Inl e)"
    by (cases "read_rb p") (auto simp: looks_binary_def Let_def)
  have b: "\<forall>content r. read_rb p = Inr content \<and> 0 \<in> set (take 8192 content)
         \<longrightarrow> looks_binary U (p\<lparr>rel_to_root := r\<rparr>)"
    by (auto simp: looks_binary_def Let_def)
  have c: "\<forall>info. decide_file U p max_bytes = Inr info \<longrightarrow>
         (reason (decision info) = py ''binary'' \<longleftrightarrow>
            py ''.git'' \<notin> set (split_slash (rel_to_root p))
            \<and> int (size_b info) \<le> max_bytes \<and> looks_binary U p)"
  proof (intro allI impI)
    fix info assume "decide_file U p max_bytes = Inr info"
    from decide_file_cases [OF this] reasons_distinct
    show "reason (decision info) = py ''binary'' \<longleftrightarrow>
            py ''.git'' \<notin> set (split_slash (rel_to_root p))
            \<and> int (size_b info) \<le> max_bytes \<and> looks_binary U p"
      by (auto split: if_splits)
  qed
  from a b c show ?thesis by blast
qed

theorem looks_binary_iff_witness:
  "looks_binary ascii_runtime (regular_file ''notes.txt'' [104, 0, 105])
   \<and> looks_binary ascii_runtime
        ((regular_file ''notes.txt'' [104, 0, 105])\<lparr>rel_to_root := py ''notes.py''\<rparr>)
   \<and> decide_file ascii_runtime (regular_file ''notes.txt'' [104, 0, 105]) 3
     = Inr \<lparr>path = regular_file ''notes.txt'' [104, 0, 105], rel = py ''notes.txt'',
            size_b = 3, decision = \<lparr>include = False, reason = py ''binary''\<rparr>\<rparr>"
proof -
  let ?p = "regular_file ''notes.txt'' [104, 0, 105]"
  have r: "read_rb ?p = Inr [104, 0, 105] \<and> 0 \<in> set (take 8192 [104, 0, 105 :: byte])"
    by (simp add: regular_file_def)
  have d: "decide_file ascii_runtime ?p 3
     = Inr \<lparr>path = ?p, rel = py ''notes.txt'',
            size_b = 3, decision = \<lparr>include = False, reason = py ''binary''\<rparr>\<rparr>"
    by (simp add: eval_defs)
  have a: "looks_binary ascii_runtime ?p"
    using looks_binary_iff [of ascii_runtime ?p 3] r by blast
  have b: "looks_binary ascii_runtime (?p\<lparr>rel_to_root := py ''notes.py''\<rparr>)"
    using looks_binary_iff [of ascii_runtime ?p 3] r by blast
  from a b d show ?thesis by simp
qed

lemmas file_defs = regular_file_def directory_def vanished_file_def unreadable_file_def
  unstatable_file_def

lemma looks_binary_unreadable: "read_rb p = Inl e \<Longrightarrow> looks_binary U p"
  by (simp add: looks_binary_def Let_def)

section \<open>Errors while classifying\<close>

theorem stat_read_error_counterexample:
  "decide_file ascii_runtime (unreadable_file ''secret.txt'' 5) 10
     = Inr \<lparr>path = unreadable_file ''secret.txt'' 5, rel = py ''secret.txt'', size_b = 5,
            decision = \<lparr>include = False, reason = py ''binary''\<rparr>\<rparr>
   \<and> collect_files ascii_runtime
        [regular_file ''a.txt'' [104, 105], unstatable_file ''b.txt'',
         regular_file ''c.txt'' [104, 105]] 10
     = Inl (Exn PermissionError (py ''Permission denied''))"
  by (simp add: eval_defs file_defs)

text \<open>
  C9, as the code has it. When every \<open>stat\<close> that fails on a regular file fails with
  \<open>FileNotFoundError\<close>, \<open>collect_files\<close> returns one record for each regular file
  that is not a symlink, in order: the size is the \<open>stat\<close> size, or 0 where the
  \<open>stat\<close> failed, and a file whose content cannot be read is never included, its
  reason being \<open>binary\<close> unless one of the two earlier tests applies. (The size of a
  file that cannot be read is not reset to 0, and a \<open>stat\<close> that fails otherwise ends
  the traversal.)
\<close>

theorem collect_files_recovers:
  assumes "\<forall>p \<in> set ps. \<not> is_symlink p \<and> is_file p \<longrightarrow>
             (\<forall>e. stat_st_size p = Inl e \<longrightarrow> kind e = FileNotFoundError)"
  shows "\<exists>infos. collect_files U ps max_bytes = Inr infos
     \<and> list_all2 (\<lambda>p i. path i = p
           \<and> size_b i = (case stat_st_size p of Inr n \<Rightarrow> n | Inl e \<Rightarrow> 0)
           \<and> ((\<exists>e. read_rb p = Inl e) \<longrightarrow>
                 reason (decision i) =
                   (if py ''.git'' \<in> set (split_slash (rel_to_root p)) then py ''ignored''
                    else if max_bytes < int (size_b i) then py ''too_large''
                    else py ''binary'')))
         (filter (\<lambda>p. \<not> is_symlink p \<and> is_file p) ps) infos"
  using assms
proof (induction ps)
  case Nil
  then show ?case by simp
next
  case (Cons p ps)
  from Cons obtain infos where rest: "collect_files U ps max_bytes = Inr infos"
    and all: "list_all2 (\<lambda>p i. path i = p
           \<and> size_b i = (case stat_st_size p of Inr n \<Rightarrow> n | Inl e \<Rightarrow> 0)
           \<and> ((\<exists>e. read_rb p = Inl e) \<longrightarrow>
                 reason (decision i) =
                   (if py ''.git'' \<in> set (split_slash (rel_to_root p)) then py ''ignored''
                    else if max_bytes < int (size_b i) then py ''too_large''
                    else py ''binary'')))
         (filter (\<lambda>p. \<not> is_symlink p \<and> is_file p) ps) infos"
    by auto
  show ?case
  proof (cases "\<not> is_symlink p \<and> is_file p")
    case False
    with rest all show ?thesis by auto
  next
    case True
    with Cons.prems have "case stat_st_size p of Inr n \<Rightarrow> True | Inl e \<Rightarrow> kind e = FileNotFoundError"
      by (auto split: sum.splits)
    then obtain i where i: "decide_file U p max_bytes = Inr i"
      using decide_file_returns [of U p max_bytes] by blast
    have "path i = p
           \<and> size_b i = (case stat_st_size p of Inr n \<Rightarrow> n | Inl e \<Rightarrow> 0)
           \<and> ((\<exists>e. read_rb p = Inl e) \<longrightarrow>
                 reason (decision i) =
                   (if py ''.git'' \<in> set (split_slash (rel_to_root p)) then py ''ignored''
                    else if max_bytes < int (size_b i) then py ''too_large''
                    else py ''binary''))"
      using decide_file_cases [OF i] looks_binary_unreadable [of p _ U] by auto
    with True rest all i show ?thesis by simp
  qed
qed

theorem collect_files_recovers_witness:
  "collect_files ascii_runtime recover_paths 10 =
     Inr [\<lparr>path = regular_file ''a.txt'' [104, 105], rel = py ''a.txt'', size_b = 2,
            decision = \<lparr>include = True, reason = py ''ok''\<rparr>\<rparr>,
          \<lparr>path = vanished_file ''gone.txt'', rel = py ''gone.txt'', size_b = 0,
            decision = \<lparr>include = False, reason = py ''binary''\<rparr>\<rparr>,
          \<lparr>path = unreadable_file ''secret.txt'' 5, rel = py ''secret.txt'', size_b = 5,
            decision = \<lparr>include = False, reason = py ''binary''\<rparr>\<rparr>,
          \<lparr>path = regular_file ''src/c.txt'' [104, 105], rel = py ''src/c.txt'', size_b = 2,
            decision = \<lparr>include = True, reason = py ''ok''\<rparr>\<rparr>]"
proof -
  have h: "\<forall>p \<in> set recover_paths. \<not> is_symlink p \<and> is_file p \<longrightarrow>
             (\<forall>e. stat_st_size p = Inl e \<longrightarrow> kind e = FileNotFoundError)"
    by (simp add: recover_paths_def file_defs)
  have e: "collect_files ascii_runtime recover_paths 10 =
     Inr [\<lparr>path = regular_file ''a.txt'' [104, 105], rel = py ''a.txt'', size_b = 2,
            decision = \<lparr>include = True, reason = py ''ok''\<rparr>\<rparr>,
          \<lparr>path = vanished_file ''gone.txt'', rel = py ''gone.txt'', size_b = 0,
            decision = \<lparr>include = False, reason = py ''binary''\<rparr>\<rparr>,
          \<lparr>path = unreadable_file ''secret.txt'' 5, rel = py ''secret.txt'', size_b = 5,
            decision = \<lparr>include = False, reason = py ''binary''\<rparr>\<rparr>,
          \<lparr>path = regular_file ''src/c.txt'' [104, 105], rel = py ''src/c.txt'', size_b = 2,
            decision = \<lparr>include = True, reason = py ''ok''\<rparr>\<rparr>]"
    by (simp add: recover_paths_def eval_defs file_defs)
  from collect_files_recovers [OF h, of ascii_runtime 10] e show ?thesis by simp
qed

section \<open>Anchor slugs\<close>

lemma slugify_map:
  "slugify U s = map (\<lambda>ch. if isalnum U ch \<or> ch = 45 \<or> ch = 95 then ch else 45) s"
  by (induction s) auto

lemma isalnum_dash [simp]: "\<not> isalnum U 45" "\<not> isalnum U 95"
  by (simp_all add: isalnum_def)

theorem slugify_not_injective_counterexample:
  "py ''docs/a.b'' \<noteq> py ''docs/a-b''
   \<and> slugify ascii_runtime (py ''docs/a.b'') = slugify ascii_runtime (py ''docs/a-b'')"
  by (simp add: py_def isalnum_def)

text \<open>
  C8, as the code has it. Two paths get the same slug exactly when they have the same
  length and, at every position, carry the same character or two characters that both
  end up as \<open>-\<close> (anything that is neither alphanumeric nor \<open>_\<close>). So the slug is
  injective on paths made of alphanumerics, \<open>-\<close> and \<open>_\<close> only, where it is the
  identity, and not in general.
\<close>

theorem slugify_eq_iff:
  "(slugify U p = slugify U q \<longleftrightarrow>
      length p = length q
      \<and> (\<forall>k < length p. p ! k = q ! k
            \<or> (\<not> isalnum U (p ! k) \<and> p ! k \<noteq> 95 \<and> \<not> isalnum U (q ! k) \<and> q ! k \<noteq> 95)))
   \<and> ((\<forall>c \<in> set p \<union> set q. isalnum U c \<or> c = 45 \<or> c = 95) \<longrightarrow>
        (slugify U p = slugify U q \<longleftrightarrow> p = q))"
proof -
  define f where "f = (\<lambda>ch. if isalnum U ch \<or> ch = 45 \<or> ch = 95 then ch else 45)"
  have ch: "f a = f b \<longleftrightarrow>
      a = b \<or> (\<not> isalnum U a \<and> a \<noteq> 95 \<and> \<not> isalnum U b \<and> b \<noteq> 95)" for a b
    unfolding f_def using isalnum_dash [of U] by auto
  have m: "slugify U s = map f s" for s
    unfolding f_def by (rule slugify_map)
  have "map f p = map f q \<longleftrightarrow>
      length p = length q \<and> (\<forall>k < length p. f (p ! k) = f (q ! k))"
    by (auto simp: list_eq_iff_nth_eq)
  then have a: "slugify U p = slugify U q \<longleftrightarrow>
      length p = length q
      \<and> (\<forall>k < length p. p ! k = q ! k
            \<or> (\<not> isalnum U (p ! k) \<and> p ! k \<noteq> 95 \<and> \<not> isalnum U (q ! k) \<and> q ! k \<noteq> 95))"
    unfolding m ch .
  have id: "\<forall>c \<in> set s. isalnum U c \<or> c = 45 \<or> c = 95 \<Longrightarrow> slugify U s = s" for s
    by (induction s) auto
  have b: "(\<forall>c \<in> set p \<union> set q. isalnum U c \<or> c = 45 \<or> c = 95) \<longrightarrow>
        (slugify U p = slugify U q \<longleftrightarrow> p = q)"
    using id [of p] id [of q] by auto
  from a b show ?thesis by blast
qed

theorem slugify_eq_iff_witness:
  "slugify ascii_runtime (py ''src/main_1.py'') \<noteq> slugify ascii_runtime (py ''src/main_2.py'')
   \<and> slugify ascii_runtime (py ''a-b_c'') = py ''a-b_c''"
proof -
  have "py ''src/main_1.py'' ! 9 \<noteq> py ''src/main_2.py'' ! 9"
    and "isalnum ascii_runtime (py ''src/main_1.py'' ! 9)"
    and "9 < length (py ''src/main_1.py'')"
    by (simp_all add: py_def isalnum_def)
  then have "slugify ascii_runtime (py ''src/main_1.py'') \<noteq> slugify ascii_runtime (py ''src/main_2.py'')"
    using slugify_eq_iff [of ascii_runtime "py ''src/main_1.py''" "py ''src/main_2.py''"]
    by blast
  moreover have "\<forall>c \<in> set (py ''a-b_c'') \<union> set (py ''a-b_c''). isalnum ascii_runtime c \<or> c = 45 \<or> c = 95"
    by (simp add: py_def isalnum_def)
  then have "slugify ascii_runtime (py ''a-b_c'') = py ''a-b_c''"
    by (simp add: py_def isalnum_def)
  ultimately show ?thesis by simp
qed

section \<open>Statistics of the assembled document\<close>

lemma decimal_digit: "n < 10 \<Longrightarrow> decimal n = [48 + n]"
  by (simp add: decimal.simps)

lemma bytes_human_examples:
  "bytes_human 0 = py ''0 B''" "bytes_human 1024 = py ''1.0 KiB''"
  "bytes_human 1536 = py ''1.5 KiB''" "bytes_human 1048576 = py ''1.0 MiB''"
  "bytes_human 1280 = py ''1.2 KiB''" "bytes_human 1048575 = py ''1024.0 KiB''"
  by (simp_all add: bytes_human_def bytes_human_loop.simps units_def round_half_even_def
      decimal.simps py_def)

lemma bytes_human_small: "n < 1024 \<Longrightarrow> bytes_human n = decimal n @ py '' B''"
  by (simp add: bytes_human_def bytes_human_loop.simps units_def py_def)

lemma build_html_fields:
  assumes "build_html U body_html tree_run repo_dir infos = Inr a"
  shows "\<exists>tree_text. try_tree_command U tree_run repo_dir = Inr tree_text
     \<and> a = \<lparr>toc_html = concat (map (toc_item U) (filter (\<lambda>i. include (decision i)) infos)),
            stat_total_files = decimal
              (length (filter (\<lambda>i. include (decision i)) infos)
               + length (filter (\<lambda>i. reason (decision i) = py ''binary'') infos)
               + length (filter (\<lambda>i. reason (decision i) = py ''too_large'') infos)
               + length (filter (\<lambda>i. reason (decision i) = py ''ignored'') infos)),
            stat_rendered = decimal (length (filter (\<lambda>i. include (decision i)) infos)),
            stat_skipped = decimal
              (length (filter (\<lambda>i. reason (decision i) = py ''binary'') infos)
               + length (filter (\<lambda>i. reason (decision i) = py ''too_large'') infos)),
            stat_total_size =
              bytes_human (sum_list (map size_b (filter (\<lambda>i. include (decision i)) infos))),
            tree_html = html_escape tree_text,
            skipped_html =
              render_skip_list (py ''Skipped binaries'')
                (filter (\<lambda>i. reason (decision i) = py ''binary'') infos)
              @ render_skip_list (py ''Skipped large files'')
                (filter (\<lambda>i. reason (decision i) = py ''too_large'') infos),
            sections_html =
              concat (map (section_html U body_html) (filter (\<lambda>i. include (decision i)) infos)),
            llm_text = html_escape (generate_cxml_text infos)\<rparr>"
  using assms by (auto simp: build_html_def Let_def split: sum.splits)

lemma build_html_tree_ok:
  "\<exists>a. build_html U body_html (Inr out) repo_dir infos = Inr a"
  by (simp add: build_html_def try_tree_command_def Let_def)

lemma classified_filters:
  assumes "collect_files U found max_bytes = Inr infos"
  shows "filter (\<lambda>i. include (decision i)) infos
           = filter (\<lambda>i. reason (decision i) = py ''ok'') infos"
    and "length (filter (\<lambda>i. reason (decision i) = py ''ok'') infos)
         + length (filter (\<lambda>i. reason (decision i) = py ''binary'') infos)
         + length (filter (\<lambda>i. reason (decision i) = py ''too_large'') infos)
         + length (filter (\<lambda>i. reason (decision i) = py ''ignored'') infos)
         = length infos"
proof -
  have each: "\<forall>i \<in> set infos.
      reason (decision i) \<in> {py ''ok'', py ''binary'', py ''too_large'', py ''ignored''}
      \<and> (include (decision i) \<longleftrightarrow> reason (decision i) = py ''ok'')"
    using collect_files_members [OF assms] decide_file_decision by blast
  then show "filter (\<lambda>i. include (decision i)) infos
           = filter (\<lambda>i. reason (decision i) = py ''ok'') infos"
    by (intro filter_cong) auto
  from each have "\<forall>i \<in> set infos.
      reason (decision i) \<in> {py ''ok'', py ''binary'', py ''too_large'', py ''ignored''}"
    by blast
  from reason_counts [OF this reasons_distinct]
  show "length (filter (\<lambda>i. reason (decision i) = py ''ok'') infos)
         + length (filter (\<lambda>i. reason (decision i) = py ''binary'') infos)
         + length (filter (\<lambda>i. reason (decision i) = py ''too_large'') infos)
         + length (filter (\<lambda>i. reason (decision i) = py ''ignored'') infos)
         = length infos" .
qed

text \<open>
  C6. For the records of the classifier, the statistics block shows: as total the number
  of all records, the ignored ones included; as rendered the number of records with reason
  \<open>ok\<close>; as skipped the number with reason \<open>binary\<close> plus the number with reason
  \<open>too_large\<close>, so that total = rendered + skipped + ignored; and as total size the
  human-readable sum of the sizes of the included files.
\<close>

theorem build_html_stats:
  assumes "collect_files U found max_bytes = Inr infos"
    and "build_html U body_html tree_run repo_dir infos = Inr a"
  shows "stat_total_files a = decimal (length infos)
     \<and> stat_rendered a = decimal (length (filter (\<lambda>i. reason (decision i) = py ''ok'') infos))
     \<and> stat_skipped a = decimal
          (length (filter (\<lambda>i. reason (decision i) = py ''binary'') infos)
           + length (filter (\<lambda>i. reason (decision i) = py ''too_large'') infos))
     \<and> stat_total_size a =
          bytes_human (sum_list (map size_b (filter (\<lambda>i. include (decision i)) infos)))
     \<and> length infos =
          length (filter (\<lambda>i. reason (decision i) = py ''ok'') infos)
          + (length (filter (\<lambda>i. reason (decision i) = py ''binary'') infos)
             + length (filter (\<lambda>i. reason (decision i) = py ''too_large'') infos))
          + length (filter (\<lambda>i. reason (decision i) = py ''ignored'') infos)"
proof -
  from build_html_fields [OF assms(2)] obtain tree_text where
    a: "stat_total_files a = decimal
              (length (filter (\<lambda>i. include (decision i)) infos)
               + length (filter (\<lambda>i. reason (decision i) = py ''binary'') infos)
               + length (filter (\<lambda>i. reason (decision i) = py ''too_large'') infos)
               + length (filter (\<lambda>i. reason (decision i) = py ''ignored'') infos))"
      "stat_rendered a = decimal (length (filter (\<lambda>i. include (decision i)) infos))"
      "stat_skipped a = decimal
              (length (filter (\<lambda>i. reason (decision i) = py ''binary'') infos)
               + length (filter (\<lambda>i. reason (decision i) = py ''too_large'') infos))"
      "stat_total_size a =
              bytes_human (sum_list (map size_b (filter (\<lambda>i. include (decision i)) infos)))"
    by auto
  note c = classified_filters [OF assms(1)]
  from a c show ?thesis by simp
qed

theorem build_html_stats_witness:
  "map_sum id stat_total_files
     (build_html ascii_runtime (\<lambda>i. []) (Inr (py ''.'')) (Dir (py ''repo'') []) sample_infos)
     = Inr (py ''4'')
   \<and> map_sum id stat_rendered
     (build_html ascii_runtime (\<lambda>i. []) (Inr (py ''.'')) (Dir (py ''repo'') []) sample_infos)
     = Inr (py ''1'')
   \<and> map_sum id stat_skipped
     (build_html ascii_runtime (\<lambda>i. []) (Inr (py ''.'')) (Dir (py ''repo'') []) sample_infos)
     = Inr (py ''2'')
   \<and> map_sum id stat_total_size
     (build_html ascii_runtime (\<lambda>i. []) (Inr (py ''.'')) (Dir (py ''repo'') []) sample_infos)
     = Inr (py ''4 B'')"
proof -
  obtain a where a: "build_html ascii_runtime (\<lambda>i. []) (Inr (py ''.'')) (Dir (py ''repo'') [])
      sample_infos = Inr a"
    using build_html_tree_ok by blast
  have n: "length sample_infos = 4"
    "length (filter (\<lambda>i. reason (decision i) = py ''ok'') sample_infos) = 1"
    "length (filter (\<lambda>i. reason (decision i) = py ''binary'') sample_infos) = 1"
    "length (filter (\<lambda>i. reason (decision i) = py ''too_large'') sample_infos) = 1"
    "sum_list (map size_b (filter (\<lambda>i. include (decision i)) sample_infos)) = 4"
    by (simp_all add: sample_infos_def py_def)
  from build_html_stats [OF sample_collect a]
  show ?thesis
    unfolding a n by (simp add: decimal_digit bytes_human_small py_def)
qed

section \<open>Entries of the structured export\<close>

lemma cxml_entries_length: "length (cxml_entries n xs) = 6 * length xs"
  by (induction xs arbitrary: n) auto

lemma cxml_entries_nth:
  \<open>k < length xs \<Longrightarrow>
     cxml_entries n xs ! (6 * k) = py ''<document index="'' @ decimal (n + k) @ py ''">''
   \<and> cxml_entries n xs ! (6 * k + 1) = py ''<source>'' @ rel (xs ! k) @ py ''</source>''
   \<and> cxml_entries n xs ! (6 * k + 2) = py ''<document_content>''
   \<and> cxml_entries n xs ! (6 * k + 3) =
        (case read_text (path (xs ! k)) of
           Inr text \<Rightarrow> text
         | Inl e \<Rightarrow> py ''Failed to read: '' @ message e)
   \<and> cxml_entries n xs ! (6 * k + 4) = py ''</document_content>''
   \<and> cxml_entries n xs ! (6 * k + 5) = py ''</document>''\<close>
proof (induction xs arbitrary: n k)
  case Nil
  then show ?case by simp
next
  case (Cons x xs)
  show ?case
  proof (cases k)
    case 0
    then show ?thesis by simp
  next
    case (Suc j)
    with Cons.prems have j: "j < length xs" by simp
    have shift: "cxml_entries n (x # xs) ! (6 * Suc j + m) = cxml_entries (n + 1) xs ! (6 * j + m)"
      for m
      by (simp add: nth_Cons')
    from Cons.IH [OF j, of "n + 1"] shift [of 0] shift [of 1] shift [of 2] shift [of 3]
      shift [of 4] shift [of 5] Suc
    show ?thesis by simp
  qed
qed

lemma decode_utf8_replace_ascii:
  "\<forall>b \<in> set bs. b < 0x80 \<Longrightarrow> decode_utf8_replace bs = map unat bs"
  by (induction bs) auto

lemma decode_utf8_replace_examples:
  "decode_utf8_replace [0xC3, 0xA9] = [233]"
  "decode_utf8_replace [0xE2, 0x82, 0xAC] = [8364]"
  "decode_utf8_replace [0xF0, 0x9F, 0x90, 0x8D] = [128013]"
  "decode_utf8_replace [0x61, 0xFF, 0x62] = [97, 65533, 98]"
  "decode_utf8_replace [0xE2, 0x82] = [65533]"
  "decode_utf8_replace [0xE2, 0x82, 0x41] = [65533, 65]"
  "decode_utf8_replace [0xE0, 0x80] = [65533, 65533]"
  "decode_utf8_replace [0xC3, 0x41] = [65533, 65]"
  by (simp_all add: second_ok_def is_cont_def)

lemma universal_newlines_id: "13 \<notin> set s \<Longrightarrow> universal_newlines s = s"
proof (induction s rule: universal_newlines.induct)
  case 1
  show ?case by simp
next
  case (2 c)
  then show ?case by simp
next
  case (3 c d s)
  from "3.prems" have c: "c \<noteq> 13" and rest: "13 \<notin> set (d # s)"
    by auto
  from "3.IH"(3) c rest have "universal_newlines (d # s) = d # s"
    by blast
  with c show ?case
    by (simp del: universal_newlines.simps add: universal_newlines.simps(3) [of c d s])
qed

lemma byte_13: "unat (b :: byte) = 13 \<Longrightarrow> b = 13"
proof -
  assume "unat b = 13"
  then have "(word_of_nat (unat b) :: byte) = word_of_nat 13"
    by (rule arg_cong)
  then show "b = 13"
    by simp
qed

lemma read_text_plain:
  assumes "text_read p = Inr content" and "\<forall>b \<in> set content. b < 0x80 \<and> b \<noteq> 13"
  shows "read_text p = Inr (map unat content)"
proof -
  from assms(2) have "decode_utf8_replace content = map unat content"
    by (simp add: decode_utf8_replace_ascii)
  moreover from assms(2) have "13 \<notin> set (map unat content)"
    using byte_13 by auto
  ultimately show ?thesis
    using assms(1) by (simp add: read_text_def universal_newlines_id)
qed

theorem export_verbatim_counterexample:
  "collect_files ascii_runtime [regular_file ''notes.txt'' [97, 13, 10, 98]] 10
     = Inr [\<lparr>path = regular_file ''notes.txt'' [97, 13, 10, 98], rel = py ''notes.txt'',
             size_b = 4, decision = \<lparr>include = True, reason = py ''ok''\<rparr>\<rparr>]
   \<and> decode_utf8_replace [97, 13, 10, 98] = [97, 13, 10, 98]
   \<and> cxml_lines
        [\<lparr>path = regular_file ''notes.txt'' [97, 13, 10, 98], rel = py ''notes.txt'',
          size_b = 4, decision = \<lparr>include = True, reason = py ''ok''\<rparr>\<rparr>] ! 4
     = [97, 10, 98]"
  by (simp add: eval_defs cxml_lines_def read_text_def)

text \<open>
  C7, as the code has it. The export holds one entry of six lines for each included
  file, between the opening and the closing line. The entry of the \<open>k\<close>-th included
  file (counting from 0, in the order of \<open>infos\<close>, which is also the order of the table
  of contents) carries the index \<open>k + 1\<close>, the file's relative path as its source, and
  as content what \<open>read_text\<close> returns, with no markup escaping: the bytes of the file
  decoded as UTF-8, every undecodable sequence replaced by U+FFFD, and every \<open>\r\n\<close> or
  lone \<open>\r\<close> turned into \<open>\n\<close>; for a file of ASCII bytes without \<open>\r\<close> that is the
  file's text unchanged. When reading raises, the content is the failure notice.
  Generation never fails.
\<close>

theorem generate_cxml_text_entries:
  \<open>generate_cxml_text infos = join [10] (cxml_lines infos)
   \<and> length (cxml_lines infos) = 6 * length (filter (\<lambda>i. include (decision i)) infos) + 2
   \<and> cxml_lines infos ! 0 = py ''<documents>''
   \<and> cxml_lines infos ! (6 * length (filter (\<lambda>i. include (decision i)) infos) + 1)
       = py ''</documents>''
   \<and> (\<forall>k < length (filter (\<lambda>i. include (decision i)) infos).
         cxml_lines infos ! (6 * k + 1) = py ''<document index="'' @ decimal (k + 1) @ py ''">''
       \<and> cxml_lines infos ! (6 * k + 2)
           = py ''<source>'' @ rel (filter (\<lambda>i. include (decision i)) infos ! k) @ py ''</source>''
       \<and> cxml_lines infos ! (6 * k + 3) = py ''<document_content>''
       \<and> cxml_lines infos ! (6 * k + 4)
           = (case text_read (path (filter (\<lambda>i. include (decision i)) infos ! k)) of
                Inr content \<Rightarrow> universal_newlines (decode_utf8_replace content)
              | Inl e \<Rightarrow> py ''Failed to read: '' @ message e)
       \<and> (\<forall>content.
             text_read (path (filter (\<lambda>i. include (decision i)) infos ! k)) = Inr content
             \<and> (\<forall>b \<in> set content. b < 0x80 \<and> b \<noteq> 13)
             \<longrightarrow> cxml_lines infos ! (6 * k + 4) = map unat content)
       \<and> cxml_lines infos ! (6 * k + 5) = py ''</document_content>''
       \<and> cxml_lines infos ! (6 * k + 6) = py ''</document>'')
   \<and> (\<forall>a. build_html U body_html tree_run repo_dir infos = Inr a \<longrightarrow>
         toc_html a = concat (map (toc_item U) (filter (\<lambda>i. include (decision i)) infos))
       \<and> llm_text a = html_escape (generate_cxml_text infos))\<close>
proof -
  let ?r = "filter (\<lambda>i. include (decision i)) infos"
  have lines: "cxml_lines infos = py ''<documents>'' # cxml_entries 1 ?r @ [py ''</documents>'']"
    by (simp add: cxml_lines_def)
  have len: "length (cxml_lines infos) = 6 * length ?r + 2"
    by (simp add: lines cxml_entries_length)
  have last: "cxml_lines infos ! (6 * length ?r + 1) = py ''</documents>''"
    by (simp add: lines nth_append cxml_entries_length)
  have entries: \<open>\<forall>k < length ?r.
         cxml_lines infos ! (6 * k + 1) = py ''<document index="'' @ decimal (k + 1) @ py ''">''
       \<and> cxml_lines infos ! (6 * k + 2) = py ''<source>'' @ rel (?r ! k) @ py ''</source>''
       \<and> cxml_lines infos ! (6 * k + 3) = py ''<document_content>''
       \<and> cxml_lines infos ! (6 * k + 4)
           = (case text_read (path (?r ! k)) of
                Inr content \<Rightarrow> universal_newlines (decode_utf8_replace content)
              | Inl e \<Rightarrow> py ''Failed to read: '' @ message e)
       \<and> (\<forall>content. text_read (path (?r ! k)) = Inr content
             \<and> (\<forall>b \<in> set content. b < 0x80 \<and> b \<noteq> 13)
             \<longrightarrow> cxml_lines infos ! (6 * k + 4) = map unat content)
       \<and> cxml_lines infos ! (6 * k + 5) = py ''</document_content>''
       \<and> cxml_lines infos ! (6 * k + 6) = py ''</document>''\<close>
  proof (intro allI impI)
    fix k assume k: "k < length ?r"
    have six: \<open>cxml_lines infos ! (6 * k + 1) = py ''<document index="'' @ decimal (k + 1) @ py ''">''
       \<and> cxml_lines infos ! (6 * k + 2) = py ''<source>'' @ rel (?r ! k) @ py ''</source>''
       \<and> cxml_lines infos ! (6 * k + 3) = py ''<document_content>''
       \<and> cxml_lines infos ! (6 * k + 4)
           = (case read_text (path (?r ! k)) of
                Inr text \<Rightarrow> text
              | Inl e \<Rightarrow> py ''Failed to read: '' @ message e)
       \<and> cxml_lines infos ! (6 * k + 5) = py ''</document_content>''
       \<and> cxml_lines infos ! (6 * k + 6) = py ''</document>''\<close>
      using cxml_entries_nth [OF k, of 1] k
      by (simp add: lines nth_append cxml_entries_length nth_Cons' add.commute)
    have content: "(case read_text (path (?r ! k)) of
                Inr text \<Rightarrow> text
              | Inl e \<Rightarrow> py ''Failed to read: '' @ message e)
        = (case text_read (path (?r ! k)) of
                Inr content \<Rightarrow> universal_newlines (decode_utf8_replace content)
              | Inl e \<Rightarrow> py ''Failed to read: '' @ message e)"
      by (simp add: read_text_def split: sum.splits)
    have plain: "\<forall>content. text_read (path (?r ! k)) = Inr content
             \<and> (\<forall>b \<in> set content. b < 0x80 \<and> b \<noteq> 13)
             \<longrightarrow> cxml_lines infos ! (6 * k + 4) = map unat content"
    proof (intro allI impI)
      fix content
      assume c: "text_read (path (?r ! k)) = Inr content
             \<and> (\<forall>b \<in> set content. b < 0x80 \<and> b \<noteq> 13)"
      then have "read_text (path (?r ! k)) = Inr (map unat content)"
        using read_text_plain by blast
      with six show "cxml_lines infos ! (6 * k + 4) = map unat content"
        by simp
    qed
    from six content plain
    show \<open>cxml_lines infos ! (6 * k + 1) = py ''<document index="'' @ decimal (k + 1) @ py ''">''
       \<and> cxml_lines infos ! (6 * k + 2) = py ''<source>'' @ rel (?r ! k) @ py ''</source>''
       \<and> cxml_lines infos ! (6 * k + 3) = py ''<document_content>''
       \<and> cxml_lines infos ! (6 * k + 4)
           = (case text_read (path (?r ! k)) of
                Inr content \<Rightarrow> universal_newlines (decode_utf8_replace content)
              | Inl e \<Rightarrow> py ''Failed to read: '' @ message e)
       \<and> (\<forall>content. text_read (path (?r ! k)) = Inr content
             \<and> (\<forall>b \<in> set content. b < 0x80 \<and> b \<noteq> 13)
             \<longrightarrow> cxml_lines infos ! (6 * k + 4) = map unat content)
       \<and> cxml_lines infos ! (6 * k + 5) = py ''</document_content>''
       \<and> cxml_lines infos ! (6 * k + 6) = py ''</document>''\<close>
      by simp
  qed
  have html: "\<forall>a. build_html U body_html tree_run repo_dir infos = Inr a \<longrightarrow>
         toc_html a = concat (map (toc_item U) ?r)
       \<and> llm_text a = html_escape (generate_cxml_text infos)"
    by (auto simp: build_html_def Let_def split: sum.splits)
  have first: "cxml_lines infos ! 0 = py ''<documents>''"
    by (simp add: lines)
  have gen: "generate_cxml_text infos = join [10] (cxml_lines infos)"
    by (simp add: generate_cxml_text_def)
  show ?thesis
    by (rule conjI [OF gen conjI [OF len conjI [OF first conjI [OF last conjI [OF entries html]]]]])
qed

theorem generate_cxml_text_entries_witness:
  \<open>length (cxml_lines export_infos) = 14
   \<and> cxml_lines export_infos ! 1 = py ''<document index="1">''
   \<and> cxml_lines export_infos ! 2 = py ''<source>README.md</source>''
   \<and> cxml_lines export_infos ! 4 = py ''# <hi>''
   \<and> cxml_lines export_infos ! 7 = py ''<document index="2">''
   \<and> cxml_lines export_infos ! 8 = py ''<source>notes.txt</source>''
   \<and> cxml_lines export_infos ! 10 = py ''Failed to read: Permission denied''\<close>
proof -
  let ?r = "filter (\<lambda>i. include (decision i)) export_infos"
  have r: "?r = [export_infos ! 0, export_infos ! 2]"
    by (simp add: export_infos_def)
  have len: "length ?r = 2"
    by (simp add: r)
  note t = generate_cxml_text_entries
    [of export_infos ascii_runtime "\<lambda>i. []" "Inr []" "Dir [] []"]
  from t have n: "length (cxml_lines export_infos) = 6 * length ?r + 2"
    by (rule conjunct2 [THEN conjunct1])
  note all = t [THEN conjunct2, THEN conjunct2, THEN conjunct2, THEN conjunct2, THEN conjunct1]
  have b0: "0 < length ?r" and b1: "1 < length ?r"
    by (simp_all add: len)
  have ix: "6 * 0 + 1 = (1 :: nat)" "6 * 0 + 2 = (2 :: nat)" "6 * 0 + 4 = (4 :: nat)"
    "6 * 1 + 1 = (7 :: nat)" "6 * 1 + 2 = (8 :: nat)" "6 * 1 + 4 = (10 :: nat)"
    "0 + 1 = (1 :: nat)" "1 + 1 = (2 :: nat)"
    by simp_all
  have v: "rel (?r ! 0) = py ''README.md''" "rel (?r ! 1) = py ''notes.txt''"
    "text_read (path (?r ! 0)) = Inr [35, 32, 60, 104, 105, 62]"
    "text_read (path (?r ! 1)) = Inl (Exn PermissionError (py ''Permission denied''))"
    by (simp_all add: export_infos_def regular_file_def py_def)
  note k0 = all [rule_format, OF b0, unfolded ix v]
  note k1 = all [rule_format, OF b1, unfolded ix v]
  have d: "decimal 1 = py ''1''" "decimal 2 = py ''2''"
    by (simp_all add: decimal_digit py_def)
  have 1: \<open>cxml_lines export_infos ! 1 = py ''<document index="1">''\<close>
    using k0 [THEN conjunct1] unfolding d by (simp add: py_def)
  have 2: "cxml_lines export_infos ! 2 = py ''<source>README.md</source>''"
    using k0 [THEN conjunct2, THEN conjunct1] by (simp add: py_def)
  have 4: "cxml_lines export_infos ! 4 = py ''# <hi>''"
    using k0 [THEN conjunct2, THEN conjunct2, THEN conjunct2, THEN conjunct1]
    by (simp add: py_def)
  have 7: \<open>cxml_lines export_infos ! 7 = py ''<document index="2">''\<close>
    using k1 [THEN conjunct1] unfolding d by (simp add: py_def)
  have 8: "cxml_lines export_infos ! 8 = py ''<source>notes.txt</source>''"
    using k1 [THEN conjunct2, THEN conjunct1] by (simp add: py_def)
  have 10: "cxml_lines export_infos ! 10 = py ''Failed to read: Permission denied''"
    using k1 [THEN conjunct2, THEN conjunct2, THEN conjunct2, THEN conjunct1]
    by (simp add: py_def)
  have 14: "length (cxml_lines export_infos) = 14"
    using n by (simp add: len)
  show ?thesis
    by (rule conjI [OF 14 conjI [OF 1 conjI [OF 2 conjI [OF 4 conjI [OF 7 conjI [OF 8 10]]]]]])
qed

section \<open>Skip lists\<close>

lemma startswith_prefix: "startswith (p @ t) p"
  by (induction p) auto

lemma startswith_contains: "startswith s sub \<Longrightarrow> contains s sub"
  by (cases s) auto

lemma contains_infix: "contains (a @ sub @ b) sub"
  by (induction a) (auto simp: startswith_prefix startswith_contains)

lemma join_member: "x \<in> set xs \<Longrightarrow> \<exists>a b. join sep xs = a @ x @ b"
proof (induction sep xs rule: join.induct)
  case (1 sep)
  then show ?case by simp
next
  case (2 sep y)
  then have "join sep [y] = [] @ x @ []" by simp
  then show ?case by blast
next
  case (3 sep y z zs)
  show ?case
  proof (cases "x = y")
    case True
    then have "join sep (y # z # zs) = [] @ x @ (sep @ join sep (z # zs))" by simp
    then show ?thesis by blast
  next
    case False
    with 3 obtain a b where "join sep (z # zs) = a @ x @ b" by auto
    then have "join sep (y # z # zs) = (y @ sep @ a) @ x @ b" by simp
    then show ?thesis by blast
  qed
qed

lemma render_skip_list_member:
  assumes "i \<in> set items"
  shows "contains (render_skip_list title items) (skip_item i)"
proof -
  from assms have ne: "items \<noteq> []" by auto
  from assms have "skip_item i \<in> set (map skip_item items)" by simp
  from join_member [OF this, of "[10]"] obtain a b
    where j: "join [10] (map skip_item items) = a @ skip_item i @ b" by blast
  have "render_skip_list title items =
      (py ''<details class='skip-section'><summary>'' @ html_escape title @ py '' (''
        @ decimal (length items) @ py '')</summary>'' @ py ''<ul class='skip-list'>'' @ [10] @ a)
      @ skip_item i @ (b @ [10] @ py ''</ul></details>'')"
    using ne by (simp add: render_skip_list_def j)
  then show ?thesis
    using contains_infix by metis
qed

theorem skip_list_ignored_counterexample:
  "reason (decision (ignored_only ! 0)) = py ''ignored''
   \<and> map_sum id skipped_html
        (build_html ascii_runtime (\<lambda>i. []) (Inr (py ''.'')) (Dir (py ''repo'') []) ignored_only)
      = Inr []"
  by (simp add: ignored_only_def build_html_def try_tree_command_def render_skip_list_def
      Let_def py_def)

text \<open>
  C5, as the code has it. The skip-list block of the document is the group of the
  \<open>binary\<close> records followed by the group of the \<open>too_large\<close> records; the
  \<open>ignored\<close> records have no group. A group is empty text when it has no member;
  otherwise it is one \<open>details\<close> element whose summary carries the escaped title and the
  number of members, and which contains, for each member, a list item with the escaped
  relative path and the human-readable size.
\<close>

theorem skip_list_groups:
  assumes "build_html U body_html tree_run repo_dir infos = Inr a"
  shows "skipped_html a =
           render_skip_list (py ''Skipped binaries'')
             (filter (\<lambda>i. reason (decision i) = py ''binary'') infos)
           @ render_skip_list (py ''Skipped large files'')
             (filter (\<lambda>i. reason (decision i) = py ''too_large'') infos)
     \<and> (\<forall>title. render_skip_list title [] = [])
     \<and> (\<forall>title items. items \<noteq> [] \<longrightarrow>
           startswith (render_skip_list title items)
             (py ''<details class='skip-section'><summary>'' @ html_escape title @ py '' (''
              @ decimal (length items) @ py '')</summary>'')
         \<and> (\<forall>i \<in> set items.
               contains (render_skip_list title items)
                 (py ''<li><code>'' @ html_escape (rel i) @ py ''</code> ''
                  @ py ''<span class='file-size'>('' @ bytes_human (size_b i)
                  @ py '')</span></li>'')))"
proof -
  from build_html_fields [OF assms]
  have a: "skipped_html a =
           render_skip_list (py ''Skipped binaries'')
             (filter (\<lambda>i. reason (decision i) = py ''binary'') infos)
           @ render_skip_list (py ''Skipped large files'')
             (filter (\<lambda>i. reason (decision i) = py ''too_large'') infos)"
    by auto
  have b: "\<forall>title. render_skip_list title [] = []"
    by (simp add: render_skip_list_def)
  have c: "startswith (render_skip_list title items)
             (py ''<details class='skip-section'><summary>'' @ html_escape title @ py '' (''
              @ decimal (length items) @ py '')</summary>'')"
    if "items \<noteq> []" for title items
  proof -
    have "render_skip_list title items =
        (py ''<details class='skip-section'><summary>'' @ html_escape title @ py '' (''
              @ decimal (length items) @ py '')</summary>'')
        @ (py ''<ul class='skip-list'>'' @ [10] @ join [10] (map skip_item items) @ [10]
           @ py ''</ul></details>'')"
      using that by (simp add: render_skip_list_def)
    then show ?thesis
      using startswith_prefix by metis
  qed
  have d: "contains (render_skip_list title items)
                 (py ''<li><code>'' @ html_escape (rel i) @ py ''</code> ''
                  @ py ''<span class='file-size'>('' @ bytes_human (size_b i)
                  @ py '')</span></li>'')"
    if "i \<in> set items" for title items i
    using render_skip_list_member [OF that, of title] by (simp add: skip_item_def)
  from a b c d show ?thesis by blast
qed

theorem skip_list_groups_witness:
  "map_sum id skipped_html
     (build_html ascii_runtime (\<lambda>i. []) (Inr (py ''.'')) (Dir (py ''repo'') []) sample_infos)
     = Inr (render_skip_list (py ''Skipped binaries'') [sample_infos ! 3]
            @ render_skip_list (py ''Skipped large files'') [sample_infos ! 2])
   \<and> startswith (render_skip_list (py ''Skipped binaries'') [sample_infos ! 3])
        (py ''<details class='skip-section'><summary>Skipped binaries (1)</summary>'')
   \<and> contains (render_skip_list (py ''Skipped binaries'') [sample_infos ! 3])
        (py ''<li><code>logo.PNG</code> <span class='file-size'>(4 B)</span></li>'')"
proof -
  obtain a where a: "build_html ascii_runtime (\<lambda>i. []) (Inr (py ''.'')) (Dir (py ''repo'') [])
      sample_infos = Inr a"
    using build_html_tree_ok by blast
  have f: "filter (\<lambda>i. reason (decision i) = py ''binary'') sample_infos = [sample_infos ! 3]"
    "filter (\<lambda>i. reason (decision i) = py ''too_large'') sample_infos = [sample_infos ! 2]"
    by (simp_all add: sample_infos_def py_def)
  have v: "html_escape (py ''Skipped binaries'') = py ''Skipped binaries''"
    "html_escape (rel (sample_infos ! 3)) = py ''logo.PNG''"
    "bytes_human (size_b (sample_infos ! 3)) = py ''4 B''"
    by (simp_all add: sample_infos_def html_escape_def escape_char_def py_def
        bytes_human_small decimal_digit)
  note t = skip_list_groups [OF a]
  from t have 1: "skipped_html a =
      render_skip_list (py ''Skipped binaries'') [sample_infos ! 3]
      @ render_skip_list (py ''Skipped large files'') [sample_infos ! 2]"
    unfolding f by blast
  have ne: "[sample_infos ! 3] \<noteq> []" "sample_infos ! 3 \<in> set [sample_infos ! 3]"
    by simp_all
  from t ne have "startswith (render_skip_list (py ''Skipped binaries'') [sample_infos ! 3])
             (py ''<details class='skip-section'><summary>''
              @ html_escape (py ''Skipped binaries'') @ py '' (''
              @ decimal (length [sample_infos ! 3]) @ py '')</summary>'')"
    by blast
  then have 2: "startswith (render_skip_list (py ''Skipped binaries'') [sample_infos ! 3])
        (py ''<details class='skip-section'><summary>Skipped binaries (1)</summary>'')"
    unfolding v by (simp add: decimal_digit py_def)
  from t ne have "contains (render_skip_list (py ''Skipped binaries'') [sample_infos ! 3])
                 (py ''<li><code>'' @ html_escape (rel (sample_infos ! 3)) @ py ''</code> ''
                  @ py ''<span class='file-size'>('' @ bytes_human (size_b (sample_infos ! 3))
                  @ py '')</span></li>'')"
    by blast
  then have 3: "contains (render_skip_list (py ''Skipped binaries'') [sample_infos ! 3])
        (py ''<li><code>logo.PNG</code> <span class='file-size'>(4 B)</span></li>'')"
    unfolding v by (simp add: py_def)
  from 1 2 3 show ?thesis
    unfolding a by simp
qed

section \<open>An empty or unusable root\<close>

lemma cxml_empty: "generate_cxml_text [] = py ''<documents>'' @ [10] @ py ''</documents>''"
  by (simp add: generate_cxml_text_def cxml_lines_def)

lemma decimal_0: "decimal 0 = py ''0''"
  by (simp add: decimal.simps py_def)

lemma bytes_human_0: "bytes_human 0 = py ''0 B''"
  by (simp add: bytes_human_small decimal_0 py_def)

theorem empty_root_counterexample:
  "collect_files ascii_runtime [] MAX_DEFAULT_BYTES = Inr []
   \<and> scan_and_build ascii_runtime (\<lambda>i. [])
        (Inl (Exn FileNotFoundError (py ''tree''))) (Dir (py ''repo'') []) [] MAX_DEFAULT_BYTES
      = Inr \<lparr>toc_html = [], stat_total_files = py ''0'', stat_rendered = py ''0'',
             stat_skipped = py ''0'', stat_total_size = py ''0 B'',
             tree_html = py ''repo'', skipped_html = [], sections_html = [],
             llm_text = py ''&lt;documents&gt;'' @ [10] @ py ''&lt;/documents&gt;''\<rparr>"
  by (simp add: scan_and_build_def build_html_def try_tree_command_def
      generate_tree_fallback_def render_skip_list_def cxml_empty decimal_0 bytes_human_0
      html_escape_def escape_char_def py_def Let_def)

text \<open>
  C10, as the code has it. When nothing is discovered under the root, the classifier
  returns no record and the assembler still returns a document whenever it obtains a tree
  listing (the \<open>tree\<close> utility ran, or the fallback could list the directories): all
  counts are zero, the lists are empty and the export has no entry. The run fails, with
  no document, only when the tree listing fails: the utility raised and the fallback
  could not list a directory, as with a root that cannot be listed.
\<close>

theorem empty_root_outcome:
  \<open>scan_and_build U body_html tree_run repo_dir [] max_bytes =
     (case try_tree_command U tree_run repo_dir of
        Inl x \<Rightarrow> Inl x
      | Inr tree_text \<Rightarrow>
          Inr \<lparr>toc_html = [], stat_total_files = py ''0'', stat_rendered = py ''0'',
                stat_skipped = py ''0'', stat_total_size = py ''0 B'',
                tree_html = html_escape tree_text, skipped_html = [], sections_html = [],
                llm_text = html_escape (py ''<documents>'' @ [10] @ py ''</documents>'')\<rparr>)
   \<and> (\<forall>out. tree_run = Inr out \<longrightarrow> try_tree_command U tree_run repo_dir = Inr out)
   \<and> (\<forall>x n. tree_run = Inl x \<and> repo_dir = Dir n [] \<longrightarrow>
         try_tree_command U tree_run repo_dir = Inr n)
   \<and> (\<forall>x n e. tree_run = Inl x \<and> repo_dir = Unlistable n e \<longrightarrow>
         scan_and_build U body_html tree_run repo_dir [] max_bytes = Inl e)\<close>
proof -
  have a: \<open>scan_and_build U body_html tree_run repo_dir [] max_bytes =
     (case try_tree_command U tree_run repo_dir of
        Inl x \<Rightarrow> Inl x
      | Inr tree_text \<Rightarrow>
          Inr \<lparr>toc_html = [], stat_total_files = py ''0'', stat_rendered = py ''0'',
                stat_skipped = py ''0'', stat_total_size = py ''0 B'',
                tree_html = html_escape tree_text, skipped_html = [], sections_html = [],
                llm_text = html_escape (py ''<documents>'' @ [10] @ py ''</documents>'')\<rparr>)\<close>
    by (simp add: scan_and_build_def build_html_def render_skip_list_def cxml_empty
        decimal_0 bytes_human_0 Let_def split: sum.splits)
  have b: "\<forall>out. tree_run = Inr out \<longrightarrow> try_tree_command U tree_run repo_dir = Inr out"
    by (simp add: try_tree_command_def)
  have c: "\<forall>x n. tree_run = Inl x \<and> repo_dir = Dir n [] \<longrightarrow>
         try_tree_command U tree_run repo_dir = Inr n"
    by (simp add: try_tree_command_def generate_tree_fallback_def)
  have d: "\<forall>x n e. tree_run = Inl x \<and> repo_dir = Unlistable n e \<longrightarrow>
         scan_and_build U body_html tree_run repo_dir [] max_bytes = Inl e"
    by (simp add: scan_and_build_def build_html_def try_tree_command_def
        generate_tree_fallback_def Let_def)
  show ?thesis
    by (rule conjI [OF a conjI [OF b conjI [OF c d]]])
qed

theorem empty_root_outcome_witness:
  "scan_and_build ascii_runtime (\<lambda>i. []) (Inl (Exn FileNotFoundError (py ''tree'')))
     (Unlistable (py ''repo'') (Exn PermissionError (py ''Permission denied''))) []
     MAX_DEFAULT_BYTES
   = Inl (Exn PermissionError (py ''Permission denied''))
   \<and> try_tree_command ascii_runtime (Inr (py ''.'')) (Dir (py ''repo'') []) = Inr (py ''.'')
   \<and> try_tree_command ascii_runtime (Inl (Exn FileNotFoundError (py ''tree'')))
        (Dir (py ''repo'') []) = Inr (py ''repo'')"
proof -
  have 1: "scan_and_build ascii_runtime (\<lambda>i. []) (Inl (Exn FileNotFoundError (py ''tree'')))
     (Unlistable (py ''repo'') (Exn PermissionError (py ''Permission denied''))) []
     MAX_DEFAULT_BYTES
   = Inl (Exn PermissionError (py ''Permission denied''))"
    using empty_root_outcome [of ascii_runtime "\<lambda>i. []"
        "Inl (Exn FileNotFoundError (py ''tree''))"
        "Unlistable (py ''repo'') (Exn PermissionError (py ''Permission denied''))"
        MAX_DEFAULT_BYTES, THEN conjunct2, THEN conjunct2, THEN conjunct2]
    by simp
  have 2: "try_tree_command ascii_runtime (Inr (py ''.'')) (Dir (py ''repo'') []) = Inr (py ''.'')"
    using empty_root_outcome [of ascii_runtime "\<lambda>i. []" "Inr (py ''.'')" "Dir (py ''repo'') []"
        MAX_DEFAULT_BYTES, THEN conjunct2, THEN conjunct1]
    by simp
  have 3: "try_tree_command ascii_runtime (Inl (Exn FileNotFoundError (py ''tree'')))
        (Dir (py ''repo'') []) = Inr (py ''repo'')"
    using empty_root_outcome [of ascii_runtime "\<lambda>i. []"
        "Inl (Exn FileNotFoundError (py ''tree''))" "Dir (py ''repo'') []" MAX_DEFAULT_BYTES,
        THEN conjunct2, THEN conjunct2, THEN conjunct1]
    by simp
  from 1 2 3 show ?thesis by simp
qed

section \<open>Order and shape of the fallback tree\<close>

lemma walk_entries_lines:
  assumes "walk_entries U es prefix = Inr lines"
  shows "lines =
      concat (map (\<lambda>k.
        (prefix @ (if k = length es - 1 then branch_last else branch_mid) @ name (es ! k))
        # (if is_dir (es ! k)
           then (case walk U (es ! k)
                        (prefix @ (if k = length es - 1 then extension_last else extension_mid)) of
                   Inr below \<Rightarrow> below
                 | Inl x \<Rightarrow> [])
           else []))
        [0..<length es])"
  using assms
proof (induction es arbitrary: lines)
  case Nil
  then show ?case by simp
next
  case (Cons e rest)
  let ?blk = "\<lambda>(es :: entry list) k.
        (prefix @ (if k = length es - 1 then branch_last else branch_mid) @ name (es ! k))
        # (if is_dir (es ! k)
           then (case walk U (es ! k)
                        (prefix @ (if k = length es - 1 then extension_last else extension_mid)) of
                   Inr below \<Rightarrow> below
                 | Inl x \<Rightarrow> [])
           else [])"
  from Cons.prems obtain below after where
    below: "(if is_dir e
             then walk U e (prefix @ (if rest = [] then extension_last else extension_mid))
             else Inr []) = Inr below"
    and after: "walk_entries U rest prefix = Inr after"
    and lines: "lines = (prefix @ (if rest = [] then branch_last else branch_mid) @ name e)
                  # below @ after"
    by (auto simp: Let_def split: sum.splits)
  have first: "?blk (e # rest) 0 =
      (prefix @ (if rest = [] then branch_last else branch_mid) @ name e) # below"
    using below by (auto split: if_splits)
  have shift: "?blk (e # rest) (Suc k) = ?blk rest k" if "k < length rest" for k
    using that by (cases rest) auto
  have "map (?blk (e # rest)) [0..<length (e # rest)]
      = ?blk (e # rest) 0 # map (\<lambda>k. ?blk (e # rest) (Suc k)) [0..<length rest]"
    by (simp add: upt_conv_Cons map_Suc_upt [symmetric] del: upt_Suc)
  also have "map (\<lambda>k. ?blk (e # rest) (Suc k)) [0..<length rest] = map (?blk rest) [0..<length rest]"
    by (rule map_cong) (use shift in auto)
  finally have "concat (map (?blk (e # rest)) [0..<length (e # rest)])
      = ?blk (e # rest) 0 @ concat (map (?blk rest) [0..<length rest])"
    by simp
  also have "concat (map (?blk rest) [0..<length rest]) = after"
    using Cons.IH [OF after] by simp
  finally show ?case
    unfolding first lines by simp
qed

lemma walk_entries_below:
  assumes "walk_entries U es prefix = Inr lines" and "k < length es" and "is_dir (es ! k)"
  shows "\<exists>below. walk U (es ! k)
           (prefix @ (if k = length es - 1 then extension_last else extension_mid)) = Inr below"
  using assms
proof (induction es arbitrary: lines k)
  case Nil
  then show ?case by simp
next
  case (Cons e rest)
  from Cons.prems(1) obtain below after where
    below: "(if is_dir e
             then walk U e (prefix @ (if rest = [] then extension_last else extension_mid))
             else Inr []) = Inr below"
    and after: "walk_entries U rest prefix = Inr after"
    by (auto simp: Let_def split: sum.splits)
  show ?case
  proof (cases k)
    case 0
    with Cons.prems(3) below show ?thesis by (auto split: if_splits)
  next
    case (Suc j)
    with Cons.prems have j: "j < length rest" "is_dir (rest ! j)" by simp_all
    from Cons.IH [OF after j] Suc j(1) show ?thesis
      by (cases rest) auto
  qed
qed

lemma sorted_entries_order:
  assumes "i < j" and "j < length (sorted_entries U es)"
  shows "(is_dir (sorted_entries U es ! j) \<longrightarrow> is_dir (sorted_entries U es ! i))
     \<and> (is_dir (sorted_entries U es ! i) = is_dir (sorted_entries U es ! j) \<longrightarrow>
          lower U (name (sorted_entries U es ! i)) \<le> lower U (name (sorted_entries U es ! j)))"
proof -
  let ?s = "sorted_entries U es"
  have "sorted (map (sort_key_of U) ?s)"
    by (simp add: sorted_entries_def)
  with assms have "map (sort_key_of U) ?s ! i \<le> map (sort_key_of U) ?s ! j"
    by (simp add: sorted_iff_nth_mono_less)
  with assms have "sort_key_of U (?s ! i) \<le> sort_key_of U (?s ! j)"
    by simp
  then show ?thesis
    by (auto simp: sort_key_of_def)
qed

theorem tree_files_first_counterexample:
  "generate_tree_fallback ascii_runtime
     (Dir (py ''repo'') [File (py ''a.txt''), Dir (py ''src'') []])
   = Inr (py ''repo'' @ [10] @ branch_mid @ py ''src'' @ [10] @ branch_last @ py ''a.txt'')"
  by (simp add: generate_tree_fallback_def sorted_entries_def sort_key_of_def lower_def
      ascii_lower_def py_def Let_def)

text \<open>
  C4, as the code has it. For a directory that \<open>walk\<close> lists, the entries shown are its
  entries other than \<open>.git\<close>, each once; they are sorted with directories before
  everything else and, within each of the two kinds, by lowercased name; every entry
  gives one line, the prefix followed by \<open>branch_last\<close> for the last entry and by
  \<open>branch_mid\<close> for the others and by the entry's name; the line of a directory is
  followed by the lines of that directory, listed in the same way under the prefix
  extended by four blanks below the last entry and by a vertical bar and three blanks
  below the others. \<open>generate_tree_fallback\<close> puts the root's name first and joins the
  lines with newlines.
\<close>

theorem walk_listing:
  assumes "walk U (Dir n es) prefix = Inr lines"
  shows "set (sorted_entries U es) = {e \<in> set es. name e \<noteq> py ''.git''}
     \<and> length (sorted_entries U es) = length (filter (\<lambda>e. name e \<noteq> py ''.git'') es)
     \<and> (\<forall>i j. i < j \<and> j < length (sorted_entries U es) \<longrightarrow>
           (is_dir (sorted_entries U es ! j) \<longrightarrow> is_dir (sorted_entries U es ! i))
         \<and> (is_dir (sorted_entries U es ! i) = is_dir (sorted_entries U es ! j) \<longrightarrow>
              lower U (name (sorted_entries U es ! i))
                \<le> lower U (name (sorted_entries U es ! j))))
     \<and> lines =
         concat (map (\<lambda>k.
           (prefix
            @ (if k = length (sorted_entries U es) - 1 then branch_last else branch_mid)
            @ name (sorted_entries U es ! k))
           # (if is_dir (sorted_entries U es ! k)
              then (case walk U (sorted_entries U es ! k)
                      (prefix @ (if k = length (sorted_entries U es) - 1
                                 then extension_last else extension_mid)) of
                      Inr below \<Rightarrow> below
                    | Inl x \<Rightarrow> [])
              else []))
           [0..<length (sorted_entries U es)])
     \<and> (\<forall>k < length (sorted_entries U es). is_dir (sorted_entries U es ! k) \<longrightarrow>
           (\<exists>below. walk U (sorted_entries U es ! k)
              (prefix @ (if k = length (sorted_entries U es) - 1
                         then extension_last else extension_mid)) = Inr below))
     \<and> (prefix = [] \<longrightarrow> generate_tree_fallback U (Dir n es) = Inr (join [10] (n # lines)))
     \<and> branch_mid = [9500, 9472, 9472, 32] \<and> branch_last = [9492, 9472, 9472, 32]
     \<and> extension_mid = [9474, 32, 32, 32] \<and> extension_last = [32, 32, 32, 32]"
proof -
  from assms have w: "walk_entries U (sorted_entries U es) prefix = Inr lines"
    by simp
  have a: "set (sorted_entries U es) = {e \<in> set es. name e \<noteq> py ''.git''}"
    by (auto simp: sorted_entries_def)
  have b: "length (sorted_entries U es) = length (filter (\<lambda>e. name e \<noteq> py ''.git'') es)"
    by (simp add: sorted_entries_def)
  have c: "\<forall>i j. i < j \<and> j < length (sorted_entries U es) \<longrightarrow>
           (is_dir (sorted_entries U es ! j) \<longrightarrow> is_dir (sorted_entries U es ! i))
         \<and> (is_dir (sorted_entries U es ! i) = is_dir (sorted_entries U es ! j) \<longrightarrow>
              lower U (name (sorted_entries U es ! i))
                \<le> lower U (name (sorted_entries U es ! j)))"
    using sorted_entries_order [of _ _ U es] by blast
  note d = walk_entries_lines [OF w]
  have e: "\<forall>k < length (sorted_entries U es). is_dir (sorted_entries U es ! k) \<longrightarrow>
           (\<exists>below. walk U (sorted_entries U es ! k)
              (prefix @ (if k = length (sorted_entries U es) - 1
                         then extension_last else extension_mid)) = Inr below)"
    using walk_entries_below [OF w] by blast
  have f: "prefix = [] \<longrightarrow> generate_tree_fallback U (Dir n es) = Inr (join [10] (n # lines))"
    using assms by (auto simp: generate_tree_fallback_def)
  have g: "branch_mid = [9500, 9472, 9472, 32] \<and> branch_last = [9492, 9472, 9472, 32]
     \<and> extension_mid = [9474, 32, 32, 32] \<and> extension_last = [32, 32, 32, 32]"
    by (simp add: branch_mid_def branch_last_def extension_mid_def extension_last_def)
  show ?thesis
    by (rule conjI [OF a conjI [OF b conjI [OF c conjI [OF d conjI [OF e conjI [OF f g]]]]]])
qed

lemma sample_tree_walk:
  "walk ascii_runtime sample_tree [] =
     Inr [branch_mid @ py ''src'',
          extension_mid @ branch_last @ py ''main.py'',
          branch_mid @ py ''A.txt'',
          branch_last @ py ''b.txt'']"
  by (simp add: sample_tree_def sorted_entries_def sort_key_of_def lower_def
      ascii_lower_def py_def Let_def)

theorem walk_listing_witness:
  "walk ascii_runtime sample_tree [] =
     Inr [branch_mid @ py ''src'',
          extension_mid @ branch_last @ py ''main.py'',
          branch_mid @ py ''A.txt'',
          branch_last @ py ''b.txt'']
   \<and> generate_tree_fallback ascii_runtime sample_tree =
     Inr (join [10] [py ''repo'', branch_mid @ py ''src'',
          extension_mid @ branch_last @ py ''main.py'',
          branch_mid @ py ''A.txt'',
          branch_last @ py ''b.txt''])"
proof -
  note w = sample_tree_walk [unfolded sample_tree_def]
  from walk_listing [OF w, THEN conjunct2, THEN conjunct2, THEN conjunct2, THEN conjunct2,
      THEN conjunct2, THEN conjunct1]
  have "generate_tree_fallback ascii_runtime sample_tree =
     Inr (join [10] [py ''repo'', branch_mid @ py ''src'',
          extension_mid @ branch_last @ py ''main.py'',
          branch_mid @ py ''A.txt'',
          branch_last @ py ''b.txt''])"
    unfolding sample_tree_def by simp
  with sample_tree_walk show ?thesis by simp
qed

end
